theory Spec2Isabelle
  imports Complex_Main "HOL-Library.Word"
begin

section \<open>JavaScript numbers as the recorder uses them\<close>

text \<open>
  The samples of a \<open>Float32Array\<close> and the intermediate values of
  \<open>createWAVBlob\<close> are IEEE numbers: a finite value, one of the two infinities, or NaN.
  Finite values are modelled by their exact real value. Every binary32 value is such a real,
  and the two products the encoder forms (a clamped binary32 sample, 24 significant bits,
  times 32768 or 32767) are exact in binary64, so no rounding step is lost. Negative zero is
  identified with zero: it is not less than zero, its product is a zero, and the 16-bit
  store writes 0 for both.
\<close>

datatype number = Finite real | PosInfinity | NegInfinity | NaN

text \<open>\<open>Math.min\<close> and \<open>Math.max\<close>: NaN if either argument is NaN.\<close>

fun Math_min :: "number \<Rightarrow> number \<Rightarrow> number" where
  "Math_min NaN b = NaN"
| "Math_min a NaN = NaN"
| "Math_min NegInfinity b = NegInfinity"
| "Math_min a NegInfinity = NegInfinity"
| "Math_min PosInfinity b = b"
| "Math_min a PosInfinity = a"
| "Math_min (Finite a) (Finite b) = Finite (min a b)"

fun Math_max :: "number \<Rightarrow> number \<Rightarrow> number" where
  "Math_max NaN b = NaN"
| "Math_max a NaN = NaN"
| "Math_max PosInfinity b = PosInfinity"
| "Math_max a PosInfinity = PosInfinity"
| "Math_max NegInfinity b = b"
| "Math_max a NegInfinity = a"
| "Math_max (Finite a) (Finite b) = Finite (max a b)"

text \<open>The relational operator \<open><\<close>: false as soon as one side is NaN.\<close>

fun num_less :: "number \<Rightarrow> number \<Rightarrow> bool" where
  "num_less NaN b = False"
| "num_less a NaN = False"
| "num_less (Finite a) (Finite b) = (a < b)"
| "num_less a NegInfinity = False"
| "num_less NegInfinity b = True"
| "num_less PosInfinity b = False"
| "num_less a PosInfinity = True"

text \<open>The operator \<open>*\<close>; the product of a zero and an infinity is NaN.\<close>

fun num_times :: "number \<Rightarrow> number \<Rightarrow> number" where
  "num_times NaN b = NaN"
| "num_times a NaN = NaN"
| "num_times (Finite a) (Finite b) = Finite (a * b)"
| "num_times (Finite a) PosInfinity =
     (if a = 0 then NaN else if 0 < a then PosInfinity else NegInfinity)"
| "num_times (Finite a) NegInfinity =
     (if a = 0 then NaN else if 0 < a then NegInfinity else PosInfinity)"
| "num_times PosInfinity (Finite b) =
     (if b = 0 then NaN else if 0 < b then PosInfinity else NegInfinity)"
| "num_times NegInfinity (Finite b) =
     (if b = 0 then NaN else if 0 < b then NegInfinity else PosInfinity)"
| "num_times PosInfinity PosInfinity = PosInfinity"
| "num_times PosInfinity NegInfinity = NegInfinity"
| "num_times NegInfinity PosInfinity = NegInfinity"
| "num_times NegInfinity NegInfinity = PosInfinity"

text \<open>
  The integer conversions of the typed stores. \<open>truncate_number\<close> drops the fraction
  towards zero; \<open>ToInt16\<close> maps NaN and the infinities to 0, reduces the truncated value
  modulo \<open>2^16\<close> and reads the result as two's complement.
\<close>

definition truncate_number :: "real \<Rightarrow> int" where
  "truncate_number r = (if r < 0 then \<lceil>r\<rceil> else \<lfloor>r\<rfloor>)"

fun ToInt16 :: "number \<Rightarrow> int" where
  "ToInt16 (Finite r) =
     (let int16bit = truncate_number r mod 2 ^ 16
      in if 2 ^ 15 \<le> int16bit then int16bit - 2 ^ 16 else int16bit)"
| "ToInt16 PosInfinity = 0"
| "ToInt16 NegInfinity = 0"
| "ToInt16 NaN = 0"

text \<open>
  The header arithmetic is on integers held as binary64 numbers. Every integer up to
  \<open>2^53\<close> in magnitude is a binary64 value; beyond that the spacing of the values
  doubles with every binade, and an operation returns the value nearest to the exact
  result, the one with the even significand on a tie. \<open>ulp\<close> is that spacing at a
  magnitude, \<open>binary64\<close> the rounding of an exact integer result, \<open>times64\<close> the
  product of two integer-valued numbers. Doubling a binary64 value is exact, and so is adding
  36 or 44 to a byte count (the size of an \<open>ArrayBuffer\<close> is below \<open>2^53\<close>), so
  they are written with the operations of \<open>int\<close>. A result too large for binary64 is an
  infinity, which the unsigned stores write as 0; an integer of that size is a multiple of
  \<open>2^32\<close> and is written as 0 too, so the infinity needs no case of its own here.
\<close>

function ulp :: "nat \<Rightarrow> nat" where
  "ulp n = (if n < 2 ^ 53 then 1 else 2 * ulp (n div 2))"
  by pat_completeness auto
termination
  by (relation "measure id") auto

declare ulp.simps [simp del]

definition binary64 :: "int \<Rightarrow> int" where
  "binary64 v =
     (let u = int (ulp (nat \<bar>v\<bar>)); q = v div u; r = v mod u
      in if 2 * r < u \<or> (2 * r = u \<and> even q) then q * u else (q + 1) * u)"

definition times64 :: "int \<Rightarrow> int \<Rightarrow> int" where
  "times64 a b = binary64 (a * b)"

section \<open>Errors and sequencing\<close>

datatype error = Error string | RangeError

definition andThen :: "error + 'a \<Rightarrow> ('a \<Rightarrow> error + 'b) \<Rightarrow> error + 'b" where
  "andThen m f = (case m of Inl e \<Rightarrow> Inl e | Inr a \<Rightarrow> f a)"

section \<open>The DataView over the output buffer\<close>

text \<open>
  An \<open>ArrayBuffer\<close> is a list of bytes. Each setter throws a RangeError when the
  bytes it writes do not lie inside the buffer; otherwise it stores the value reduced to
  the width of the field, least significant byte first (every call of the source passes
  \<open>littleEndian = true\<close>). Integer arguments are \<open>int\<close>. The allocation of the
  buffer itself is taken to succeed.
\<close>

type_synonym byte = "8 word"
type_synonym ArrayBuffer = "byte list"

definition setUint8 :: "nat \<Rightarrow> int \<Rightarrow> ArrayBuffer \<Rightarrow> error + ArrayBuffer" where
  "setUint8 byteOffset v view =
     (if byteOffset + 1 \<le> length view
      then Inr (view[byteOffset := word_of_int v])
      else Inl RangeError)"

definition setUint16 :: "nat \<Rightarrow> int \<Rightarrow> ArrayBuffer \<Rightarrow> error + ArrayBuffer" where
  "setUint16 byteOffset v view =
     (if byteOffset + 2 \<le> length view
      then Inr (view[byteOffset := word_of_int v,
                     byteOffset + 1 := word_of_int (v div 2 ^ 8)])
      else Inl RangeError)"

definition setUint32 :: "nat \<Rightarrow> int \<Rightarrow> ArrayBuffer \<Rightarrow> error + ArrayBuffer" where
  "setUint32 byteOffset v view =
     (if byteOffset + 4 \<le> length view
      then Inr (view[byteOffset := word_of_int v,
                     byteOffset + 1 := word_of_int (v div 2 ^ 8),
                     byteOffset + 2 := word_of_int (v div 2 ^ 16),
                     byteOffset + 3 := word_of_int (v div 2 ^ 24)])
      else Inl RangeError)"

definition setInt16 :: "nat \<Rightarrow> number \<Rightarrow> ArrayBuffer \<Rightarrow> error + ArrayBuffer" where
  "setInt16 byteOffset x view =
     (if byteOffset + 2 \<le> length view
      then Inr (view[byteOffset := word_of_int (ToInt16 x),
                     byteOffset + 1 := word_of_int (ToInt16 x div 2 ^ 8)])
      else Inl RangeError)"

text \<open>The readers of a DataView, little-endian, used to state what a buffer holds.\<close>

definition getUint16 :: "ArrayBuffer \<Rightarrow> nat \<Rightarrow> int" where
  "getUint16 view off = uint (view ! off) + 2 ^ 8 * uint (view ! (off + 1))"

definition getUint32 :: "ArrayBuffer \<Rightarrow> nat \<Rightarrow> int" where
  "getUint32 view off =
     uint (view ! off) + 2 ^ 8 * uint (view ! (off + 1))
       + 2 ^ 16 * uint (view ! (off + 2)) + 2 ^ 24 * uint (view ! (off + 3))"

definition getInt16 :: "ArrayBuffer \<Rightarrow> nat \<Rightarrow> int" where
  "getInt16 view off =
     (let u = getUint16 view off in if 2 ^ 15 \<le> u then u - 2 ^ 16 else u)"

definition ascii :: "string \<Rightarrow> byte list" where
  "ascii s = map (\<lambda>c. word_of_int (of_char c)) s"

section \<open>Platform objects\<close>

text \<open>
  The browser objects the recorder holds are opaque to it; they are modelled by the data
  the platform fixes when it creates them. A \<open>MediaStream\<close> carries the settings
  the device actually delivers, an \<open>AudioContext\<close> its own sample rate. The fallible
  platform calls of \<open>initialize\<close> are parameters: each returns the object or the
  string form of the exception it throws.
\<close>

record MediaTrackConstraints =
  constraint_sampleRate :: int
  constraint_channelCount :: int
  echoCancellation :: bool
  noiseSuppression :: bool
  autoGainControl :: bool

record MediaStream =
  track_sampleRate :: int
  track_channelCount :: int

record AudioContext =
  context_sampleRate :: int

record MediaStreamAudioSourceNode =
  source_stream :: MediaStream

record ScriptProcessorNode =
  bufferSize :: nat
  numberOfInputChannels :: int
  numberOfOutputChannels :: int

record Platform =
  getUserMedia :: "MediaTrackConstraints \<Rightarrow> string + MediaStream"
  newAudioContext :: "int \<Rightarrow> string + AudioContext"
  createMediaStreamSource ::
    "AudioContext \<Rightarrow> MediaStream \<Rightarrow> string + MediaStreamAudioSourceNode"
  createScriptProcessor ::
    "AudioContext \<Rightarrow> nat \<Rightarrow> int \<Rightarrow> int \<Rightarrow> string + ScriptProcessorNode"
  connectProcessor :: "MediaStreamAudioSourceNode \<Rightarrow> ScriptProcessorNode \<Rightarrow> string + unit"
  connectDestination :: "ScriptProcessorNode \<Rightarrow> AudioContext \<Rightarrow> string + unit"

text \<open>The block of per-channel samples an \<open>onaudioprocess\<close> event delivers.\<close>

record AudioBuffer =
  ab_length :: nat
  ab_channelData :: "number list list"

definition numberOfChannels :: "AudioBuffer \<Rightarrow> nat" where
  "numberOfChannels inputBuffer = length (ab_channelData inputBuffer)"

record Blob =
  blob_data :: ArrayBuffer
  blob_type :: string

section \<open>The recorder\<close>

record AudioRecorderOptions =
  opt_sampleRate :: "int option"
  opt_channelCount :: "int option"
  opt_bitDepth :: "int option"

record AudioRecorder =
  audioContext :: "AudioContext option"
  mediaStream :: "MediaStream option"
  sourceNode :: "MediaStreamAudioSourceNode option"
  processorNode :: "ScriptProcessorNode option"
  audioBuffer :: "number list list"
  isRecording :: bool
  isPaused :: bool
  sampleRate :: int
  channelCount :: int
  bitDepth :: int

text \<open>
  A method returns normally with a value or throws, and in both cases leaves the object
  in some state: the outcome is the pair of the two.
\<close>

type_synonym 'a outcome = "(error + 'a) \<times> AudioRecorder"

text \<open>\<open>options.x || d\<close>: the default replaces an absent field and a zero.\<close>

fun orDefault :: "int option \<Rightarrow> int \<Rightarrow> int" where
  "orDefault None d = d"
| "orDefault (Some v) d = (if v = 0 then d else v)"

definition constructor :: "AudioRecorderOptions \<Rightarrow> AudioRecorder" where
  "constructor options =
     \<lparr>audioContext = None, mediaStream = None, sourceNode = None, processorNode = None,
      audioBuffer = [], isRecording = False, isPaused = False,
      sampleRate = orDefault (opt_sampleRate options) 44100,
      channelCount = orDefault (opt_channelCount options) 2,
      bitDepth = orDefault (opt_bitDepth options) 16\<rparr>"

subsection \<open>The audio callback\<close>

text \<open>
  The two nested loops that interleave the channels. A store past the end of a typed
  array is ignored, as a list update past the end is.
\<close>

fun copyChannel :: "nat \<Rightarrow> nat \<Rightarrow> nat \<Rightarrow> number list \<Rightarrow> number list \<Rightarrow> number list" where
  "copyChannel n channel i [] audioData = audioData"
| "copyChannel n channel i (x # channelData) audioData =
     copyChannel n channel (i + 1) channelData (audioData[i * n + channel := x])"

fun copyChannels :: "nat \<Rightarrow> nat \<Rightarrow> number list list \<Rightarrow> number list \<Rightarrow> number list" where
  "copyChannels n channel [] audioData = audioData"
| "copyChannels n channel (channelData # rest) audioData =
     copyChannels n (channel + 1) rest (copyChannel n channel 0 channelData audioData)"

definition interleave :: "AudioBuffer \<Rightarrow> number list" where
  "interleave inputBuffer =
     copyChannels (numberOfChannels inputBuffer) 0 (ab_channelData inputBuffer)
       (replicate (ab_length inputBuffer * numberOfChannels inputBuffer) (Finite 0))"

definition onaudioprocess :: "AudioBuffer \<Rightarrow> AudioRecorder \<Rightarrow> AudioRecorder" where
  "onaudioprocess inputBuffer this =
     (if isRecording this \<and> \<not> isPaused this
      then this\<lparr>audioBuffer := audioBuffer this @ [interleave inputBuffer]\<rparr>
      else this)"

subsection \<open>initialize\<close>

definition initFailure :: "string \<Rightarrow> error" where
  "initFailure e = Error (''Failed to initialize audio recorder: '' @ e)"

definition initialize :: "Platform \<Rightarrow> AudioRecorder \<Rightarrow> unit outcome" where
  "initialize p this =
     (case getUserMedia p
             \<lparr>constraint_sampleRate = sampleRate this,
              constraint_channelCount = channelCount this,
              echoCancellation = False, noiseSuppression = False,
              autoGainControl = False\<rparr> of
        Inl e \<Rightarrow> (Inl (initFailure e), this)
      | Inr stream \<Rightarrow>
          let this = this\<lparr>mediaStream := Some stream\<rparr> in
          (case newAudioContext p (sampleRate this) of
             Inl e \<Rightarrow> (Inl (initFailure e), this)
           | Inr ctx \<Rightarrow>
               let this = this\<lparr>audioContext := Some ctx\<rparr> in
               (case createMediaStreamSource p ctx stream of
                  Inl e \<Rightarrow> (Inl (initFailure e), this)
                | Inr src \<Rightarrow>
                    let this = this\<lparr>sourceNode := Some src\<rparr> in
                    (case createScriptProcessor p ctx 4096 (channelCount this)
                            (channelCount this) of
                       Inl e \<Rightarrow> (Inl (initFailure e), this)
                     | Inr proc \<Rightarrow>
                         let this = this\<lparr>processorNode := Some proc\<rparr> in
                         (case connectProcessor p src proc of
                            Inl e \<Rightarrow> (Inl (initFailure e), this)
                          | Inr u \<Rightarrow>
                              (case connectDestination p proc ctx of
                                 Inl e \<Rightarrow> (Inl (initFailure e), this)
                               | Inr u \<Rightarrow> (Inr (), this)))))))"

subsection \<open>start, pause, resume\<close>

definition startRecording :: "AudioRecorder \<Rightarrow> unit outcome" where
  "startRecording this =
     (if audioContext this = None \<or> processorNode this = None
      then (Inl (Error ''Audio recorder not initialized''), this)
      else (Inr (), this\<lparr>audioBuffer := [], isRecording := True, isPaused := False\<rparr>))"

definition pauseRecording :: "AudioRecorder \<Rightarrow> unit outcome" where
  "pauseRecording this = (Inr (), this\<lparr>isPaused := True\<rparr>)"

definition resumeRecording :: "AudioRecorder \<Rightarrow> unit outcome" where
  "resumeRecording this = (Inr (), this\<lparr>isPaused := False\<rparr>)"

subsection \<open>The WAV encoder\<close>

fun writeString :: "nat \<Rightarrow> string \<Rightarrow> ArrayBuffer \<Rightarrow> error + ArrayBuffer" where
  "writeString offset [] view = Inr view"
| "writeString offset (c # cs) view =
     andThen (setUint8 offset (of_char c) view) (writeString (offset + 1) cs)"

text \<open>The clamp and the asymmetric scaling of one sample.\<close>

definition clampSample :: "number \<Rightarrow> number" where
  "clampSample x = Math_max (Finite (- 1)) (Math_min (Finite 1) x)"

definition pcmSample :: "number \<Rightarrow> number" where
  "pcmSample x =
     (let sample = clampSample x
      in if num_less sample (Finite 0) then num_times sample (Finite 32768)
         else num_times sample (Finite 32767))"

text \<open>The inner and the outer loop over the capture buffer; both thread \<open>offset\<close>.\<close>

fun writeSamples :: "number list \<Rightarrow> nat \<Rightarrow> ArrayBuffer \<Rightarrow> error + nat \<times> ArrayBuffer" where
  "writeSamples [] offset view = Inr (offset, view)"
| "writeSamples (x # buffer) offset view =
     andThen (setInt16 offset (pcmSample x) view) (writeSamples buffer (offset + 2))"

fun writeBuffers :: "number list list \<Rightarrow> nat \<Rightarrow> ArrayBuffer \<Rightarrow> error + nat \<times> ArrayBuffer" where
  "writeBuffers [] offset view = Inr (offset, view)"
| "writeBuffers (buffer # rest) offset view =
     andThen (writeSamples buffer offset view) (\<lambda>(offset, view). writeBuffers rest offset view)"

definition sampleCount :: "number list list \<Rightarrow> nat" where
  "sampleCount buffers = foldl (\<lambda>sum buffer. sum + length buffer) 0 buffers"

definition writeHeader :: "AudioRecorder \<Rightarrow> nat \<Rightarrow> ArrayBuffer \<Rightarrow> error + ArrayBuffer" where
  "writeHeader this totalSamples view =
     andThen (writeString 0 ''RIFF'' view) (\<lambda>view.
     andThen (setUint32 4 (36 + int totalSamples * 2) view) (\<lambda>view.
     andThen (writeString 8 ''WAVE'' view) (\<lambda>view.
     andThen (writeString 12 ''fmt '' view) (\<lambda>view.
     andThen (setUint32 16 16 view) (\<lambda>view.
     andThen (setUint16 20 1 view) (\<lambda>view.
     andThen (setUint16 22 (channelCount this) view) (\<lambda>view.
     andThen (setUint32 24 (sampleRate this) view) (\<lambda>view.
     andThen (setUint32 28 (times64 (sampleRate this) (channelCount this) * 2) view) (\<lambda>view.
     andThen (setUint16 32 (channelCount this * 2) view) (\<lambda>view.
     andThen (setUint16 34 16 view) (\<lambda>view.
     andThen (writeString 36 ''data'' view) (\<lambda>view.
     setUint32 40 (int totalSamples * 2) view))))))))))))"

definition createWAVBlob :: "AudioRecorder \<Rightarrow> error + Blob" where
  "createWAVBlob this =
     (let totalSamples = sampleCount (audioBuffer this);
          arrayBuffer = replicate (44 + totalSamples * 2) 0
      in andThen (writeHeader this totalSamples arrayBuffer) (\<lambda>view.
         andThen (writeBuffers (audioBuffer this) 44 view) (\<lambda>(offset, view).
         Inr \<lparr>blob_data = view, blob_type = ''audio/wav''\<rparr>)))"

subsection \<open>stop and cleanup\<close>

definition stopRecording :: "AudioRecorder \<Rightarrow> Blob outcome" where
  "stopRecording this =
     (if \<not> isRecording this
      then (Inl (Error ''No recording in progress''), this)
      else
        let this = this\<lparr>isRecording := False, isPaused := False\<rparr> in
        (case createWAVBlob this of
           Inl e \<Rightarrow> (Inl e, this)
         | Inr wavBlob \<Rightarrow> (Inr wavBlob, this\<lparr>audioBuffer := []\<rparr>)))"

text \<open>
  \<open>cleanup\<close> returns nothing; the model returns the release calls it makes on the
  platform, in the order it makes them.
\<close>

datatype release =
    ProcessorDisconnect ScriptProcessorNode
  | SourceDisconnect MediaStreamAudioSourceNode
  | ContextClose AudioContext
  | TracksStop MediaStream

definition cleanup :: "AudioRecorder \<Rightarrow> release list outcome" where
  "cleanup this =
     (let calls1 = (case processorNode this of None \<Rightarrow> [] | Some n \<Rightarrow> [ProcessorDisconnect n]);
          this1 = this\<lparr>processorNode := None\<rparr>;
          calls2 = (case sourceNode this1 of None \<Rightarrow> [] | Some n \<Rightarrow> [SourceDisconnect n]);
          this2 = this1\<lparr>sourceNode := None\<rparr>;
          calls3 = (case audioContext this2 of None \<Rightarrow> [] | Some c \<Rightarrow> [ContextClose c]);
          this3 = this2\<lparr>audioContext := None\<rparr>;
          calls4 = (case mediaStream this3 of None \<Rightarrow> [] | Some m \<Rightarrow> [TracksStop m]);
          this4 = this3\<lparr>mediaStream := None\<rparr>
      in (Inr (calls1 @ calls2 @ calls3 @ calls4),
          this4\<lparr>audioBuffer := [], isRecording := False, isPaused := False\<rparr>))"

subsection \<open>The states of the session\<close>

text \<open>
  The recorder keeps two flags and four handles, no state variable. The session states
  are read off them: recording or paused while \<open>isRecording\<close> is set, otherwise
  initialized when the handles \<open>startRecording\<close> asks for are present. A stopped
  session is in the same condition as an initialized one.
\<close>

datatype phase = Uninitialized | Initialized | Recording | Paused

definition phase :: "AudioRecorder \<Rightarrow> phase" where
  "phase this =
     (if isRecording this then (if isPaused this then Paused else Recording)
      else if audioContext this = None \<or> processorNode this = None then Uninitialized
      else Initialized)"

text \<open>What happens to a session: calls of the caller and deliveries of the platform.\<close>

datatype event = Deliver AudioBuffer | Pause | Resume

fun step :: "event \<Rightarrow> AudioRecorder \<Rightarrow> AudioRecorder" where
  "step (Deliver inputBuffer) this = onaudioprocess inputBuffer this"
| "step Pause this = snd (pauseRecording this)"
| "step Resume this = snd (resumeRecording this)"

definition run :: "event list \<Rightarrow> AudioRecorder \<Rightarrow> AudioRecorder" where
  "run events this = foldl (\<lambda>this e. step e this) this events"

section \<open>The layout the encoder is meant to produce\<close>

text \<open>
  The canonical 44-byte header as a table of fields, written independently of the encoder
  (the byte rate is the product as binary64 arithmetic gives it):
  \<open>le16\<close> and \<open>le32\<close> are the little-endian bytes of an unsigned field,
  \<open>pcmBytes\<close> the two bytes of one converted sample.
\<close>

definition le16 :: "int \<Rightarrow> byte list" where
  "le16 v = [word_of_int v, word_of_int (v div 2 ^ 8)]"

definition le32 :: "int \<Rightarrow> byte list" where
  "le32 v = [word_of_int v, word_of_int (v div 2 ^ 8), word_of_int (v div 2 ^ 16),
             word_of_int (v div 2 ^ 24)]"

definition wavHeader :: "int \<Rightarrow> int \<Rightarrow> int \<Rightarrow> byte list" where
  "wavHeader R C dataSize =
     ascii ''RIFF'' @ le32 (36 + dataSize) @ ascii ''WAVE'' @ ascii ''fmt '' @ le32 16
       @ le16 1 @ le16 C @ le32 R @ le32 (times64 R C * 2) @ le16 (C * 2) @ le16 16
       @ ascii ''data'' @ le32 dataSize"

definition pcmBytes :: "number \<Rightarrow> byte list" where
  "pcmBytes x = le16 (ToInt16 (pcmSample x))"

text \<open>
  The blocks of a run of events that arrive while the session is not paused, in their
  order of arrival; the flag is whether the session is paused when the run begins.
\<close>

fun delivered :: "bool \<Rightarrow> event list \<Rightarrow> AudioBuffer list" where
  "delivered paused [] = []"
| "delivered paused (Deliver b # es) = (if paused then [] else [b]) @ delivered paused es"
| "delivered paused (Pause # es) = delivered True es"
| "delivered paused (Resume # es) = delivered False es"

text \<open>
  The states a recorder built from \<open>options\<close> can be in: any sequence of method
  calls and callback deliveries, on any platform.
\<close>

inductive reachable :: "AudioRecorderOptions \<Rightarrow> AudioRecorder \<Rightarrow> bool" where
  r_new: "reachable options (constructor options)"
| r_initialize: "reachable options this \<Longrightarrow> reachable options (snd (initialize p this))"
| r_start: "reachable options this \<Longrightarrow> reachable options (snd (startRecording this))"
| r_pause: "reachable options this \<Longrightarrow> reachable options (snd (pauseRecording this))"
| r_resume: "reachable options this \<Longrightarrow> reachable options (snd (resumeRecording this))"
| r_stop: "reachable options this \<Longrightarrow> reachable options (snd (stopRecording this))"
| r_cleanup: "reachable options this \<Longrightarrow> reachable options (snd (cleanup this))"
| r_deliver: "reachable options this \<Longrightarrow> reachable options (onaudioprocess b this)"

text \<open>
  The six platform calls of \<open>initialize\<close>, with the arguments it passes, all
  succeeding with the given objects.
\<close>

definition platformDelivers ::
  "Platform \<Rightarrow> AudioRecorder \<Rightarrow> MediaStream \<Rightarrow> AudioContext
     \<Rightarrow> MediaStreamAudioSourceNode \<Rightarrow> ScriptProcessorNode \<Rightarrow> bool" where
  "platformDelivers p this stream ctx src proc \<longleftrightarrow>
     getUserMedia p
         \<lparr>constraint_sampleRate = sampleRate this,
          constraint_channelCount = channelCount this,
          echoCancellation = False, noiseSuppression = False,
          autoGainControl = False\<rparr> = Inr stream
     \<and> newAudioContext p (sampleRate this) = Inr ctx
     \<and> createMediaStreamSource p ctx stream = Inr src
     \<and> createScriptProcessor p ctx 4096 (channelCount this) (channelCount this) = Inr proc
     \<and> connectProcessor p src proc = Inr ()
     \<and> connectDestination p proc ctx = Inr ()"

subsection \<open>Concrete sessions\<close>

text \<open>
  A platform on which every call succeeds and whose microphone delivers 48000 Hz mono
  whatever is asked of it, the options of a caller asking for 44100 Hz stereo, and three
  stereo blocks.
\<close>

definition demoPlatform :: Platform where
  "demoPlatform =
     \<lparr>getUserMedia = (\<lambda>c. Inr \<lparr>track_sampleRate = 48000, track_channelCount = 1\<rparr>),
      newAudioContext = (\<lambda>rate. Inr \<lparr>context_sampleRate = rate\<rparr>),
      createMediaStreamSource = (\<lambda>ctx stream. Inr \<lparr>source_stream = stream\<rparr>),
      createScriptProcessor = (\<lambda>ctx size ins outs.
        Inr \<lparr>bufferSize = size, numberOfInputChannels = ins, numberOfOutputChannels = outs\<rparr>),
      connectProcessor = (\<lambda>src proc. Inr ()),
      connectDestination = (\<lambda>proc ctx. Inr ())\<rparr>"

definition demoOptions :: AudioRecorderOptions where
  "demoOptions = \<lparr>opt_sampleRate = Some 44100, opt_channelCount = Some 2, opt_bitDepth = None\<rparr>"

definition demoReady :: AudioRecorder where
  "demoReady = snd (initialize demoPlatform (constructor demoOptions))"

definition demoRecording :: AudioRecorder where
  "demoRecording = snd (startRecording demoReady)"

definition blockA :: AudioBuffer where
  "blockA = \<lparr>ab_length = 2, ab_channelData = [[Finite (1/2), Finite (3/2)], [Finite (-1/2), Finite (-3/2)]]\<rparr>"

definition blockB :: AudioBuffer where
  "blockB = \<lparr>ab_length = 1, ab_channelData = [[Finite (1/4)], [Finite (-1/4)]]\<rparr>"

definition blockC :: AudioBuffer where
  "blockC = \<lparr>ab_length = 1, ab_channelData = [[Finite 1], [Finite (-1)]]\<rparr>"

text \<open>The same platform with the microphone permission denied.\<close>

definition deniedPlatform :: Platform where
  "deniedPlatform = demoPlatform\<lparr>getUserMedia := (\<lambda>c. Inl ''NotAllowedError: Permission denied'')\<rparr>"

text \<open>
  A platform whose microphone and context run at whatever is asked of them, and a caller
  asking for 16000 Hz mono.
\<close>

definition echoPlatform :: Platform where
  "echoPlatform = demoPlatform\<lparr>getUserMedia := (\<lambda>c.
     Inr \<lparr>track_sampleRate = constraint_sampleRate c,
          track_channelCount = constraint_channelCount c\<rparr>)\<rparr>"

definition voiceOptions :: AudioRecorderOptions where
  "voiceOptions = \<lparr>opt_sampleRate = Some 16000, opt_channelCount = Some 1, opt_bitDepth = None\<rparr>"

definition voiceRecording :: AudioRecorder where
  "voiceRecording = snd (startRecording (snd (initialize echoPlatform (constructor voiceOptions))))"



text \<open>The session \<open>demoReady\<close> initialized a second time, with no cleanup in between.\<close>

definition demoTwice :: AudioRecorder where
  "demoTwice = snd (initialize echoPlatform demoReady)"

definition demoEvents :: "event list" where
  "demoEvents = [Deliver blockA, Pause, Deliver blockB, Resume, Deliver blockC]"

definition demoCaptured :: AudioRecorder where
  "demoCaptured = run demoEvents demoRecording"

section \<open>The encoder produces the layout\<close>

lemma ulp_small: "n < 2 ^ 53 \<Longrightarrow> ulp n = 1"
  by (simp add: ulp.simps)

lemma ulp_2_53: "ulp (2 ^ 53) = 2"
  by (simp add: ulp.simps)

lemma binary64_exact:
  assumes "\<bar>v\<bar> \<le> 2 ^ 53"
  shows "binary64 v = v"
proof (cases "\<bar>v\<bar> < 2 ^ 53")
  case True
  then have "nat \<bar>v\<bar> < 2 ^ 53"
    by (simp add: nat_less_iff)
  then have "ulp (nat \<bar>v\<bar>) = 1"
    by (rule ulp_small)
  then show ?thesis
    by (simp add: binary64_def)
next
  case False
  with assms have v: "v = 2 ^ 53 \<or> v = - (2 ^ 53)"
    by linarith
  then have "nat \<bar>v\<bar> = 2 ^ 53"
    by auto
  then have "ulp (nat \<bar>v\<bar>) = 2"
    using ulp_2_53 by simp
  then show ?thesis
    using v by (auto simp add: binary64_def Let_def)
qed

lemma times64_exact: "\<bar>a * b\<bar> \<le> 2 ^ 53 \<Longrightarrow> times64 a b = a * b"
  by (simp add: times64_def binary64_exact)


lemma list_update_Cons_numeral:
  "(x # xs)[numeral v := y] = x # xs[numeral v - 1 := y]"
  by (simp add: numeral_eq_Suc)

lemma replicate_44:
  "replicate (44 + k) x =
     [x,x,x,x, x,x,x,x, x,x,x,x, x,x,x,x, x,x,x,x, x,x,x,x, x,x,x,x, x,x,x,x,
      x,x,x,x, x,x,x,x, x,x,x,x] @ replicate k x"
  by (simp add: replicate_add numeral_eq_Suc)

lemma writeHeader_eq:
  "writeHeader this n (replicate (44 + k) 0) =
     Inr (wavHeader (sampleRate this) (channelCount this) (int n * 2) @ replicate k 0)"
  unfolding replicate_44
  by (simp add: writeHeader_def andThen_def setUint8_def setUint16_def setUint32_def
      list_update_Cons_numeral wavHeader_def le16_def le32_def ascii_def)

lemma sampleCount_foldl:
  "foldl (\<lambda>sum buffer. sum + length buffer) a bs = a + length (concat bs)"
  by (induction bs arbitrary: a) simp_all

lemma sampleCount_concat: "sampleCount bs = length (concat bs)"
  by (simp add: sampleCount_def sampleCount_foldl)

lemma setInt16_append:
  "setInt16 (length pre) x (pre @ a # b # rest) = Inr (pre @ le16 (ToInt16 x) @ rest)"
  by (simp add: setInt16_def le16_def list_update_append)

lemma writeSamples_append:
  "length pre = off \<Longrightarrow>
   writeSamples xs off (pre @ replicate (2 * length xs + k) 0) =
     Inr (off + 2 * length xs, pre @ concat (map pcmBytes xs) @ replicate k 0)"
proof (induction xs arbitrary: pre off)
  case Nil
  then show ?case by simp
next
  case (Cons x xs)
  have rep: "replicate (2 * length (x # xs) + k) (0::byte)
      = 0 # 0 # replicate (2 * length xs + k) 0"
    by simp
  have "writeSamples (x # xs) off (pre @ replicate (2 * length (x # xs) + k) 0) =
        writeSamples xs (off + 2) ((pre @ pcmBytes x) @ replicate (2 * length xs + k) 0)"
    unfolding rep Cons.prems [symmetric]
    by (simp add: andThen_def setInt16_append pcmBytes_def del: replicate.simps)
  also have "\<dots> = Inr (off + 2 + 2 * length xs,
      (pre @ pcmBytes x) @ concat (map pcmBytes xs) @ replicate k 0)"
    by (rule Cons.IH) (use Cons.prems in \<open>simp add: pcmBytes_def le16_def\<close>)
  finally show ?case by simp
qed

lemma length_pcmBytes_concat: "length (concat (map pcmBytes xs)) = 2 * length xs"
  by (induction xs) (simp_all add: pcmBytes_def le16_def)

lemma writeBuffers_append:
  "length pre = off \<Longrightarrow>
   writeBuffers bs off (pre @ replicate (2 * length (concat bs) + k) 0) =
     Inr (off + 2 * length (concat bs),
          pre @ concat (map pcmBytes (concat bs)) @ replicate k 0)"
proof (induction bs arbitrary: pre off)
  case Nil
  then show ?case by simp
next
  case (Cons b bs)
  have rep: "2 * length (concat (b # bs)) + k = 2 * length b + (2 * length (concat bs) + k)"
    by simp
  have "writeBuffers (b # bs) off (pre @ replicate (2 * length (concat (b # bs)) + k) 0) =
        writeBuffers bs (off + 2 * length b)
          ((pre @ concat (map pcmBytes b)) @ replicate (2 * length (concat bs) + k) 0)"
    unfolding rep using Cons.prems
    by (simp add: andThen_def writeSamples_append)
  also have "\<dots> = Inr (off + 2 * length b + 2 * length (concat bs),
       (pre @ concat (map pcmBytes b)) @ concat (map pcmBytes (concat bs)) @ replicate k 0)"
    by (rule Cons.IH) (use Cons.prems in \<open>simp add: length_pcmBytes_concat\<close>)
  finally show ?case by simp
qed

lemma length_wavHeader: "length (wavHeader R C d) = 44"
  by (simp add: wavHeader_def le16_def le32_def ascii_def)

lemma createWAVBlob_eq:
  "createWAVBlob this =
     Inr \<lparr>blob_data = wavHeader (sampleRate this) (channelCount this)
                        (int (sampleCount (audioBuffer this)) * 2)
                      @ concat (map pcmBytes (concat (audioBuffer this))),
          blob_type = ''audio/wav''\<rparr>"
proof -
  let ?bs = "audioBuffer this"
  let ?h = "wavHeader (sampleRate this) (channelCount this) (int (sampleCount ?bs) * 2)"
  have hd: "writeHeader this (sampleCount ?bs) (replicate (44 + sampleCount ?bs * 2) 0) =
      Inr (?h @ replicate (2 * length (concat ?bs) + 0) 0)"
    by (simp add: writeHeader_eq sampleCount_concat mult.commute)
  have body: "writeBuffers ?bs 44 (?h @ replicate (2 * length (concat ?bs) + 0) 0) =
      Inr (44 + 2 * length (concat ?bs),
           ?h @ concat (map pcmBytes (concat ?bs)) @ replicate 0 0)"
    by (rule writeBuffers_append) (simp add: length_wavHeader)
  show ?thesis
    unfolding createWAVBlob_def Let_def hd andThen_def sum.case body
    by simp
qed

subsection \<open>Reading the fields back\<close>

lemma le16_decode:
  "uint (word_of_int v :: byte) + 2 ^ 8 * uint (word_of_int (v div 2 ^ 8) :: byte)
     = v mod 2 ^ 16"
proof -
  have "v mod 2 ^ 16 = v mod 2 ^ 8 + 2 ^ 8 * (v div 2 ^ 8 mod 2 ^ 8)"
    using zmod_zmult2_eq [of "2 ^ 8" v "2 ^ 8"] by simp
  then show ?thesis by (simp add: uint_word_of_int)
qed

lemma le32_decode:
  "uint (word_of_int v :: byte) + 2 ^ 8 * uint (word_of_int (v div 2 ^ 8) :: byte)
     + 2 ^ 16 * uint (word_of_int (v div 2 ^ 16) :: byte)
     + 2 ^ 24 * uint (word_of_int (v div 2 ^ 24) :: byte) = v mod 2 ^ 32"
proof -
  have a: "v mod 2 ^ 32 = v mod 2 ^ 16 + 2 ^ 16 * (v div 2 ^ 16 mod 2 ^ 16)"
    using zmod_zmult2_eq [of "2 ^ 16" v "2 ^ 16"] by simp
  have b: "v div 2 ^ 16 div 2 ^ 8 = v div 2 ^ 24"
    using zdiv_zmult2_eq [of "2 ^ 8" v "2 ^ 16"] by simp
  show ?thesis
    using le16_decode [of v] le16_decode [of "v div 2 ^ 16"] a b by simp
qed

lemma getUint16_le16:
  "length pre = off \<Longrightarrow> getUint16 (pre @ le16 v @ rest) off = v mod 2 ^ 16"
  unfolding getUint16_def le16_def
  using le16_decode [of v]
  by (simp add: nth_append del: uint_word_of_int_eq)

lemma getUint32_le32:
  "length pre = off \<Longrightarrow> getUint32 (pre @ le32 v @ rest) off = v mod 2 ^ 32"
  unfolding getUint32_def le32_def
  using le32_decode [of v]
  by (simp add: nth_append  del: uint_word_of_int_eq)

lemma length_le [simp]: "length (le16 v) = 2" "length (le32 v) = 4"
  by (simp_all add: le16_def le32_def)

lemma length_ascii [simp]: "length (ascii s) = length s"
  by (simp add: ascii_def)

lemma header_fields:
  fixes R C d :: int and rest :: "byte list"
  defines "view \<equiv> wavHeader R C d @ rest"
  shows "take 4 view = ascii ''RIFF''"
    and "getUint32 view 4 = (36 + d) mod 2 ^ 32"
    and "take 4 (drop 8 view) = ascii ''WAVE''"
    and "take 4 (drop 12 view) = ascii ''fmt ''"
    and "getUint32 view 16 = 16"
    and "getUint16 view 20 = 1"
    and "getUint16 view 22 = C mod 2 ^ 16"
    and "getUint32 view 24 = R mod 2 ^ 32"
    and "getUint32 view 28 = (times64 R C * 2) mod 2 ^ 32"
    and "getUint16 view 32 = (C * 2) mod 2 ^ 16"
    and "getUint16 view 34 = 16"
    and "take 4 (drop 36 view) = ascii ''data''"
    and "getUint32 view 40 = d mod 2 ^ 32"
    and "drop 44 view = rest"
proof -
  show "take 4 view = ascii ''RIFF''"
    by (simp add: view_def wavHeader_def)
  show "getUint32 view 4 = (36 + d) mod 2 ^ 32"
    unfolding view_def wavHeader_def append_assoc
    by (rule getUint32_le32 [of "ascii ''RIFF''" 4 "36 + d", simplified append_assoc]) simp
  show "take 4 (drop 8 view) = ascii ''WAVE''"
    by (simp add: view_def wavHeader_def)
  show "take 4 (drop 12 view) = ascii ''fmt ''"
    by (simp add: view_def wavHeader_def)
  show "getUint32 view 16 = 16"
    using getUint32_le32 [of "ascii ''RIFF'' @ le32 (36 + d) @ ascii ''WAVE'' @ ascii ''fmt ''" 16 16]
    by (simp add: view_def wavHeader_def)
  show "getUint16 view 20 = 1"
    using getUint16_le16 [of "ascii ''RIFF'' @ le32 (36 + d) @ ascii ''WAVE'' @ ascii ''fmt '' @ le32 16" 20 1]
    by (simp add: view_def wavHeader_def)
  show "getUint16 view 22 = C mod 2 ^ 16"
    using getUint16_le16 [of "ascii ''RIFF'' @ le32 (36 + d) @ ascii ''WAVE'' @ ascii ''fmt '' @ le32 16 @ le16 1" 22 C]
    by (simp add: view_def wavHeader_def)
  show "getUint32 view 24 = R mod 2 ^ 32"
    using getUint32_le32 [of "ascii ''RIFF'' @ le32 (36 + d) @ ascii ''WAVE'' @ ascii ''fmt '' @ le32 16 @ le16 1 @ le16 C" 24 R]
    by (simp add: view_def wavHeader_def)
  show "getUint32 view 28 = (times64 R C * 2) mod 2 ^ 32"
    using getUint32_le32 [of "ascii ''RIFF'' @ le32 (36 + d) @ ascii ''WAVE'' @ ascii ''fmt '' @ le32 16 @ le16 1 @ le16 C @ le32 R" 28 "times64 R C * 2"]
    by (simp add: view_def wavHeader_def)
  show "getUint16 view 32 = (C * 2) mod 2 ^ 16"
    using getUint16_le16 [of "ascii ''RIFF'' @ le32 (36 + d) @ ascii ''WAVE'' @ ascii ''fmt '' @ le32 16 @ le16 1 @ le16 C @ le32 R @ le32 (times64 R C * 2)" 32 "C * 2"]
    by (simp add: view_def wavHeader_def)
  show "getUint16 view 34 = 16"
    using getUint16_le16 [of "ascii ''RIFF'' @ le32 (36 + d) @ ascii ''WAVE'' @ ascii ''fmt '' @ le32 16 @ le16 1 @ le16 C @ le32 R @ le32 (times64 R C * 2) @ le16 (C * 2)" 34 16]
    by (simp add: view_def wavHeader_def)
  show "take 4 (drop 36 view) = ascii ''data''"
    by (simp add: view_def wavHeader_def)
  show "getUint32 view 40 = d mod 2 ^ 32"
    using getUint32_le32 [of "ascii ''RIFF'' @ le32 (36 + d) @ ascii ''WAVE'' @ ascii ''fmt '' @ le32 16 @ le16 1 @ le16 C @ le32 R @ le32 (times64 R C * 2) @ le16 (C * 2) @ le16 16 @ ascii ''data''" 40 d]
    by (simp add: view_def wavHeader_def)
  show "drop 44 view = rest"
    by (simp add: view_def wavHeader_def)
qed


lemma ToInt16_range: "- 32768 \<le> ToInt16 x \<and> ToInt16 x \<le> 32767"
proof (cases x)
  case (Finite r)
  define m where "m = truncate_number r mod 2 ^ 16"
  have m: "0 \<le> m" "m < 65536"
    by (simp_all add: m_def)
  have "ToInt16 x = (if 32768 \<le> m then m - 65536 else m)"
    using Finite by (simp add: m_def Let_def)
  then show ?thesis
    using m by auto
qed simp_all

lemma int16_signed_decode:
  fixes i :: int
  assumes "- 32768 \<le> i" "i \<le> 32767"
  shows "(let u = i mod 2 ^ 16 in if 2 ^ 15 \<le> u then u - 2 ^ 16 else u) = i"
proof (cases "0 \<le> i")
  case True
  then have "i mod 65536 = i" using assms by simp
  then show ?thesis using assms by (simp add: Let_def)
next
  case False
  then have "i mod 65536 = i + 65536"
    using assms mod_pos_pos_trivial [of "i + 65536" 65536] by (simp add: mod_add_self2)
  then show ?thesis using assms False by (simp add: Let_def)
qed



section \<open>What the callback stores\<close>

lemma length_copyChannel: "length (copyChannel n channel i xs audioData) = length audioData"
  by (induction xs arbitrary: i audioData) simp_all

lemma length_copyChannels: "length (copyChannels n channel chans audioData) = length audioData"
  by (induction chans arbitrary: channel audioData) (simp_all add: length_copyChannel)

lemma length_interleave: "length (interleave b) = ab_length b * numberOfChannels b"
  by (simp add: interleave_def length_copyChannels)

lemma slot_iff:
  fixes n c i p :: nat
  assumes "c < n"
  shows "i * n + c = p \<longleftrightarrow> p mod n = c \<and> p div n = i"
proof
  assume "i * n + c = p"
  then show "p mod n = c \<and> p div n = i"
    using assms by auto
next
  assume "p mod n = c \<and> p div n = i"
  then show "i * n + c = p"
    using div_mult_mod_eq [of p n] by simp
qed

lemma copyChannel_nth:
  assumes "channel < n" "p < length audioData"
  shows "copyChannel n channel i xs audioData ! p =
     (if p mod n = channel \<and> i \<le> p div n \<and> p div n < i + length xs
      then xs ! (p div n - i) else audioData ! p)"
  using assms(2)
proof (induction xs arbitrary: i audioData)
  case Nil
  then show ?case by auto
next
  case (Cons x xs)
  have len: "p < length (audioData[i * n + channel := x])"
    using Cons.prems by simp
  have "audioData[i * n + channel := x] ! p
      = (if i * n + channel = p then x else audioData ! p)"
    using Cons.prems by (simp add: nth_list_update)
  then have upd: "audioData[i * n + channel := x] ! p
      = (if p mod n = channel \<and> p div n = i then x else audioData ! p)"
    unfolding slot_iff [OF assms(1)] .
  show ?case
    using Cons.IH [OF len, of "i + 1"] upd
    by (auto simp add: nth_Cons')
qed

lemma copyChannels_nth:
  assumes "p < length audioData"
  shows "c0 + length chans \<le> n \<Longrightarrow>
     copyChannels n c0 chans audioData ! p =
     (if c0 \<le> p mod n \<and> p mod n < c0 + length chans
          \<and> p div n < length (chans ! (p mod n - c0))
      then chans ! (p mod n - c0) ! (p div n) else audioData ! p)"
  using assms
proof (induction chans arbitrary: c0 audioData)
  case Nil
  then show ?case by auto
next
  case (Cons ch rest)
  from Cons.prems have c0: "c0 < n" and rest: "(c0 + 1) + length rest \<le> n"
    by simp_all
  have len: "p < length (copyChannel n c0 0 ch audioData)"
    using Cons.prems by (simp add: length_copyChannel)
  have first: "copyChannel n c0 0 ch audioData ! p
      = (if p mod n = c0 \<and> p div n < length ch then ch ! (p div n) else audioData ! p)"
    using copyChannel_nth [OF c0, of p audioData 0 ch] Cons.prems by simp
  show ?case
    using Cons.IH [OF rest len] first
    by (auto simp add: nth_Cons')
qed

lemma interleave_nth:
  assumes wf: "\<forall>ch \<in> set (ab_channelData b). length ch = ab_length b"
    and i: "i < ab_length b" and c: "c < numberOfChannels b"
  shows "interleave b ! (i * numberOfChannels b + c) = ab_channelData b ! c ! i"
proof -
  let ?n = "numberOfChannels b"
  let ?p = "i * ?n + c"
  have "?p < (i + 1) * ?n"
    using c by simp
  also have "\<dots> \<le> ab_length b * ?n"
    using i by (intro mult_le_mono1) simp
  finally have p: "?p < length (replicate (ab_length b * ?n) (Finite 0))"
    by simp
  have dm: "?p mod ?n = c" "?p div ?n = i"
    using c by simp_all
  have "ab_channelData b ! c \<in> set (ab_channelData b)"
    using c by (simp add: numberOfChannels_def)
  with wf have lc: "length (ab_channelData b ! c) = ab_length b"
    by blast
  have "0 + length (ab_channelData b) \<le> ?n"
    by (simp add: numberOfChannels_def)
  from copyChannels_nth [OF p this]
  show ?thesis
    using c i lc unfolding interleave_def dm by (simp add: numberOfChannels_def)
qed

section \<open>The concrete sessions, evaluated\<close>

lemma demoReady_eq:
  "demoReady =
     \<lparr>audioContext = Some \<lparr>context_sampleRate = 44100\<rparr>,
      mediaStream = Some \<lparr>track_sampleRate = 48000, track_channelCount = 1\<rparr>,
      sourceNode = Some \<lparr>source_stream = \<lparr>track_sampleRate = 48000, track_channelCount = 1\<rparr>\<rparr>,
      processorNode = Some \<lparr>bufferSize = 4096, numberOfInputChannels = 2,
                            numberOfOutputChannels = 2\<rparr>,
      audioBuffer = [], isRecording = False, isPaused = False,
      sampleRate = 44100, channelCount = 2, bitDepth = 16\<rparr>"
  by (simp add: demoReady_def initialize_def demoPlatform_def constructor_def demoOptions_def)

lemma demoRecording_eq: "demoRecording = demoReady\<lparr>isRecording := True\<rparr>"
  by (simp add: demoRecording_def startRecording_def demoReady_eq)

lemma interleave_blockA:
  "interleave blockA = [Finite (1/2), Finite (-1/2), Finite (3/2), Finite (-3/2)]"
  by (simp add: interleave_def blockA_def numberOfChannels_def numeral_eq_Suc)

lemma interleave_blockB: "interleave blockB = [Finite (1/4), Finite (-1/4)]"
  by (simp add: interleave_def blockB_def numberOfChannels_def numeral_eq_Suc)

lemma interleave_blockC: "interleave blockC = [Finite 1, Finite (-1)]"
  by (simp add: interleave_def blockC_def numberOfChannels_def numeral_eq_Suc)

lemma demoCaptured_eq:
  "demoCaptured =
     demoRecording\<lparr>audioBuffer := [interleave blockA, interleave blockC]\<rparr>"
  by (simp add: demoCaptured_def demoEvents_def run_def onaudioprocess_def pauseRecording_def resumeRecording_def
      demoRecording_eq demoReady_eq)



lemma voiceRecording_eq:
  "voiceRecording =
     \<lparr>audioContext = Some \<lparr>context_sampleRate = 16000\<rparr>,
      mediaStream = Some \<lparr>track_sampleRate = 16000, track_channelCount = 1\<rparr>,
      sourceNode = Some \<lparr>source_stream = \<lparr>track_sampleRate = 16000, track_channelCount = 1\<rparr>\<rparr>,
      processorNode = Some \<lparr>bufferSize = 4096, numberOfInputChannels = 1,
                            numberOfOutputChannels = 1\<rparr>,
      audioBuffer = [], isRecording = True, isPaused = False,
      sampleRate = 16000, channelCount = 1, bitDepth = 16\<rparr>"
  by (simp add: voiceRecording_def startRecording_def initialize_def echoPlatform_def
      demoPlatform_def constructor_def voiceOptions_def)


lemma demoTwice_eq:
  "demoTwice =
     \<lparr>audioContext = Some \<lparr>context_sampleRate = 44100\<rparr>,
      mediaStream = Some \<lparr>track_sampleRate = 44100, track_channelCount = 2\<rparr>,
      sourceNode = Some \<lparr>source_stream = \<lparr>track_sampleRate = 44100, track_channelCount = 2\<rparr>\<rparr>,
      processorNode = Some \<lparr>bufferSize = 4096, numberOfInputChannels = 2,
                            numberOfOutputChannels = 2\<rparr>,
      audioBuffer = [], isRecording = False, isPaused = False,
      sampleRate = 44100, channelCount = 2, bitDepth = 16\<rparr>"
  by (simp add: demoTwice_def demoReady_eq initialize_def echoPlatform_def demoPlatform_def)

section \<open>One sample: clamp, scale, store\<close>

lemma clampSample_simps:
  "clampSample (Finite v) = Finite (max (- 1) (min 1 v))"
  "clampSample PosInfinity = Finite 1"
  "clampSample NegInfinity = Finite (- 1)"
  "clampSample NaN = NaN"
  by (simp_all add: clampSample_def)

lemma clampSample_ex:
  assumes "x \<noteq> NaN"
  shows "\<exists>s. clampSample x = Finite s \<and> - 1 \<le> s \<and> s \<le> 1
     \<and> (\<forall>v. x = Finite v \<longrightarrow> s = max (- 1) (min 1 v))
     \<and> (x = PosInfinity \<longrightarrow> s = 1) \<and> (x = NegInfinity \<longrightarrow> s = - 1)"
  using assms by (cases x) (auto simp add: clampSample_simps)

lemma pcmSample_of_clamp:
  "clampSample x = Finite s \<Longrightarrow>
   pcmSample x = Finite (if s < 0 then s * 32768 else s * 32767)"
  by (simp add: pcmSample_def)

text \<open>NaN goes through the clamp and the scaling as NaN, and the store writes 0 for it.\<close>

lemma pcmSample_NaN: "pcmSample NaN = NaN" "ToInt16 (pcmSample NaN) = 0"
  by (simp_all add: pcmSample_def clampSample_simps)

lemma scaled_range:
  fixes s :: real
  assumes "- 1 \<le> s" "s \<le> 1"
  shows "- 32768 \<le> (if s < 0 then s * 32768 else s * 32767)"
    and "(if s < 0 then s * 32768 else s * 32767) \<le> 32767"
  using assms by auto

lemma truncate_number_range:
  assumes "- 32768 \<le> p" "p \<le> 32767"
  shows "- 32768 \<le> truncate_number p" "truncate_number p \<le> 32767"
  using assms by (auto simp add: truncate_number_def le_floor_iff floor_le_iff
      ceiling_le_iff le_ceiling_iff)

lemma ToInt16_no_wrap:
  assumes "- 32768 \<le> p" "p \<le> 32767"
  shows "ToInt16 (Finite p) = truncate_number p"
  using int16_signed_decode [OF truncate_number_range [OF assms]]
  by simp

lemma setInt16_read_back:
  assumes "off + 2 \<le> length view"
  shows "\<exists>view'. setInt16 off x view = Inr view' \<and> getInt16 view' off = ToInt16 x"
proof -
  let ?view' = "view[off := word_of_int (ToInt16 x),
                     off + 1 := word_of_int (ToInt16 x div 2 ^ 8)]"
  have "getUint16 ?view' off = ToInt16 x mod 2 ^ 16"
    using assms le16_decode [of "ToInt16 x"]
    by (simp add: getUint16_def del: uint_word_of_int_eq)
  then have "getInt16 ?view' off = ToInt16 x"
    using int16_signed_decode [of "ToInt16 x"] ToInt16_range [of x]
    by (simp add: getInt16_def)
  then show ?thesis
    using assms by (simp add: setInt16_def)
qed

lemma pcm_values:
  "ToInt16 (pcmSample (Finite (1/2))) = 16383"
  "ToInt16 (pcmSample (Finite (- (1/2)))) = - 16384"
  "ToInt16 (pcmSample (Finite (3/2))) = 32767"
  "ToInt16 (pcmSample (Finite (- (3/2)))) = - 32768"
  "ToInt16 (pcmSample (Finite 1)) = 32767"
  "ToInt16 (pcmSample (Finite (-1))) = - 32768"
  by (simp_all add: pcmSample_def clampSample_simps truncate_number_def)

lemma pcmBytes_values:
  "pcmBytes (Finite (1/2)) = [255, 63]"
  "pcmBytes (Finite (- (1/2))) = [0, 192]"
  "pcmBytes (Finite (3/2)) = [255, 127]"
  "pcmBytes (Finite (- (3/2))) = [0, 128]"
  "pcmBytes (Finite 1) = [255, 127]"
  "pcmBytes (Finite (-1)) = [0, 128]"
  by (simp_all add: pcmBytes_def le16_def pcm_values)

text \<open>
  Claim C2 says that every float sample is clamped to \<open>[-1, 1]\<close> before it is scaled.
  NaN is a float sample, and \<open>Math.min\<close> and \<open>Math.max\<close> return NaN for it: the
  clamp yields no value of \<open>[-1, 1]\<close>, the scaled value is NaN and the store writes 0.
\<close>

theorem clamp_NaN_counterexample:
  "clampSample NaN = NaN
   \<and> \<not> (\<exists>s. clampSample NaN = Finite s \<and> - 1 \<le> s \<and> s \<le> 1)
   \<and> pcmSample NaN = NaN
   \<and> ToInt16 (pcmSample NaN) = 0"
  by (simp add: clampSample_simps pcmSample_NaN)

text \<open>
  Claim C2, amended. A sample \<open>x\<close> other than NaN (finite or infinite) is first clamped
  to a value \<open>s\<close> of \<open>[-1, 1]\<close>, which is \<open>max (-1) (min 1 x)\<close>; the PCM value is
  then \<open>s * 32768\<close> when \<open>s < 0\<close> and \<open>s * 32767\<close> otherwise, and the 16-bit store
  keeps its integer part. So 1.5 is encoded as 1.0 is, to 32767, and -1.5 as -1.0 is, to
  -32768. A NaN sample stays NaN through the clamp and the scaling and is stored as 0.
  The encoding is a function of the sample alone.
\<close>

theorem pcmSample_clamp_then_scale:
  assumes "x \<noteq> NaN"
  shows "(\<exists>s. clampSample x = Finite s \<and> - 1 \<le> s \<and> s \<le> 1
       \<and> (\<forall>v. x = Finite v \<longrightarrow> s = max (- 1) (min 1 v))
       \<and> (x = PosInfinity \<longrightarrow> s = 1) \<and> (x = NegInfinity \<longrightarrow> s = - 1)
       \<and> pcmSample x = Finite (if s < 0 then s * 32768 else s * 32767)
       \<and> ToInt16 (pcmSample x) = truncate_number (if s < 0 then s * 32768 else s * 32767))
     \<and> pcmSample (Finite (3/2)) = pcmSample (Finite 1)
     \<and> ToInt16 (pcmSample (Finite (3/2))) = 32767
     \<and> pcmSample (Finite (- 3/2)) = pcmSample (Finite (- 1))
     \<and> ToInt16 (pcmSample (Finite (- 3/2))) = - 32768
     \<and> clampSample NaN = NaN \<and> pcmSample NaN = NaN \<and> ToInt16 (pcmSample NaN) = 0"
proof -
  from clampSample_ex [OF assms]
  obtain s where s: "clampSample x = Finite s" "- 1 \<le> s" "s \<le> 1"
    "\<forall>v. x = Finite v \<longrightarrow> s = max (- 1) (min 1 v)"
    "x = PosInfinity \<longrightarrow> s = 1" "x = NegInfinity \<longrightarrow> s = - 1"
    by blast
  let ?p = "if s < 0 then s * 32768 else s * 32767"
  have p: "pcmSample x = Finite ?p"
    using s(1) by (rule pcmSample_of_clamp)
  have stored: "ToInt16 (pcmSample x) = truncate_number ?p"
    unfolding p using scaled_range [OF s(2,3)] by (rule ToInt16_no_wrap)
  have over: "pcmSample (Finite (3/2)) = pcmSample (Finite 1)"
      "ToInt16 (pcmSample (Finite (3/2))) = 32767"
    by (simp_all add: pcmSample_def clampSample_simps truncate_number_def)
  have under: "pcmSample (Finite (- 3/2)) = pcmSample (Finite (- 1))"
      "ToInt16 (pcmSample (Finite (- 3/2))) = - 32768"
    by (simp_all add: pcmSample_def clampSample_simps truncate_number_def)
  have nan: "clampSample NaN = NaN" "pcmSample NaN = NaN" "ToInt16 (pcmSample NaN) = 0"
    by (simp_all add: clampSample_simps pcmSample_NaN)
  show ?thesis
    using s p stored over under nan by blast
qed

theorem pcmSample_clamp_then_scale_witness:
  "Finite (1/2) \<noteq> NaN
   \<and> clampSample (Finite (1/2)) = Finite (1/2)
   \<and> pcmSample (Finite (1/2)) = Finite (32767/2)
   \<and> ToInt16 (pcmSample (Finite (1/2))) = 16383
   \<and> PosInfinity \<noteq> NaN
   \<and> clampSample PosInfinity = Finite 1
   \<and> ToInt16 (pcmSample PosInfinity) = 32767
   \<and> NegInfinity \<noteq> NaN
   \<and> clampSample NegInfinity = Finite (- 1)
   \<and> ToInt16 (pcmSample NegInfinity) = - 32768"
proof -
  have h: "Finite (1/2) \<noteq> NaN" "PosInfinity \<noteq> NaN" "NegInfinity \<noteq> NaN"
    by simp_all
  from pcmSample_clamp_then_scale [OF h(1)]
  obtain s where s: "s = max (- 1) (min 1 (1/2))"
      "clampSample (Finite (1/2)) = Finite s"
      "pcmSample (Finite (1/2)) = Finite (if s < 0 then s * 32768 else s * 32767)"
      "ToInt16 (pcmSample (Finite (1/2)))
         = truncate_number (if s < 0 then s * 32768 else s * 32767)"
    by blast
  have half: "s = 1/2"
    unfolding s(1) by simp
  have a: "clampSample (Finite (1/2)) = Finite (1/2)
      \<and> pcmSample (Finite (1/2)) = Finite (32767/2)
      \<and> ToInt16 (pcmSample (Finite (1/2))) = 16383"
    using s(2-4) unfolding half by (simp add: truncate_number_def)
  from pcmSample_clamp_then_scale [OF h(2)]
  obtain t where t: "t = 1" "clampSample PosInfinity = Finite t"
      "ToInt16 (pcmSample PosInfinity)
         = truncate_number (if t < 0 then t * 32768 else t * 32767)"
    by blast
  have b: "clampSample PosInfinity = Finite 1 \<and> ToInt16 (pcmSample PosInfinity) = 32767"
    using t(2,3) unfolding t(1) by (simp add: truncate_number_def)
  from pcmSample_clamp_then_scale [OF h(3)]
  obtain u where u: "u = - 1" "clampSample NegInfinity = Finite u"
      "ToInt16 (pcmSample NegInfinity)
         = truncate_number (if u < 0 then u * 32768 else u * 32767)"
    by blast
  have c: "clampSample NegInfinity = Finite (- 1)
      \<and> ToInt16 (pcmSample NegInfinity) = - 32768"
    using u(2,3) unfolding u(1) by (simp add: truncate_number_def)
  from h a b c show ?thesis by blast
qed

text \<open>
  Claim C10. For a sample that is not NaN, of any magnitude, the value handed to the
  16-bit store lies in \<open>[-32768, 32767]\<close>, so does its integer part, and the store
  keeps exactly that integer: reading the two bytes back as a signed 16-bit value
  returns it, nothing wraps around.
\<close>

theorem pcmSample_within_int16:
  assumes "x \<noteq> NaN"
  shows "\<exists>p. pcmSample x = Finite p \<and> - 32768 \<le> p \<and> p \<le> 32767
     \<and> ToInt16 (pcmSample x) = truncate_number p
     \<and> - 32768 \<le> truncate_number p \<and> truncate_number p \<le> 32767
     \<and> (\<forall>off view. off + 2 \<le> length view \<longrightarrow>
          (\<exists>view'. setInt16 off (pcmSample x) view = Inr view'
             \<and> getInt16 view' off = truncate_number p))"
proof -
  from clampSample_ex [OF assms]
  obtain s where s: "clampSample x = Finite s" "- 1 \<le> s" "s \<le> 1"
    by blast
  let ?p = "if s < 0 then s * 32768 else s * 32767"
  have p: "pcmSample x = Finite ?p"
    using s(1) by (rule pcmSample_of_clamp)
  have bounds: "- 32768 \<le> ?p" "?p \<le> 32767"
    using scaled_range [OF s(2,3)] .
  have stored: "ToInt16 (pcmSample x) = truncate_number ?p"
    unfolding p using bounds by (rule ToInt16_no_wrap)
  have reread: "\<forall>off view. off + 2 \<le> length view \<longrightarrow>
          (\<exists>view'. setInt16 off (pcmSample x) view = Inr view'
             \<and> getInt16 view' off = truncate_number ?p)"
    using setInt16_read_back [of _ _ "pcmSample x"] stored by metis
  show ?thesis
    using p bounds stored truncate_number_range [OF bounds] reread by blast
qed

theorem pcmSample_within_int16_witness:
  "NegInfinity \<noteq> NaN \<and> pcmSample NegInfinity = Finite (- 32768)
   \<and> ToInt16 (pcmSample NegInfinity) = - 32768
   \<and> (\<exists>view'. setInt16 0 (pcmSample NegInfinity) [0, 0] = Inr view'
         \<and> getInt16 view' 0 = - 32768)"
proof -
  have h: "NegInfinity \<noteq> NaN" by simp
  have v: "pcmSample NegInfinity = Finite (- 32768)"
    by (simp add: pcmSample_def clampSample_simps)
  from pcmSample_within_int16 [OF h]
  obtain p where p: "pcmSample NegInfinity = Finite p"
      "ToInt16 (pcmSample NegInfinity) = truncate_number p"
      "\<forall>off view. off + 2 \<le> length view \<longrightarrow>
          (\<exists>view'. setInt16 off (pcmSample NegInfinity) view = Inr view'
             \<and> getInt16 view' off = truncate_number p)"
    by blast
  from p(1) v have pv: "p = - 32768" by simp
  have t: "truncate_number (- 32768) = - 32768"
    by (simp add: truncate_number_def)
  have "0 + 2 \<le> length [0::byte, 0]" by simp
  with p(3) have "\<exists>view'. setInt16 0 (pcmSample NegInfinity) [0, 0] = Inr view'
      \<and> getInt16 view' 0 = truncate_number p"
    by blast
  with h v p(2) show ?thesis
    unfolding pv t by simp
qed

section \<open>The encoded buffer\<close>




section \<open>The session: what each operation keeps and changes\<close>

lemma initialize_keeps:
  "sampleRate (snd (initialize p this)) = sampleRate this"
  "channelCount (snd (initialize p this)) = channelCount this"
  "bitDepth (snd (initialize p this)) = bitDepth this"
  "isRecording (snd (initialize p this)) = isRecording this"
  "isPaused (snd (initialize p this)) = isPaused this"
  "audioBuffer (snd (initialize p this)) = audioBuffer this"
  by (simp_all add: initialize_def Let_def split: sum.splits)

lemma initialize_keeps_handles:
  "audioContext this \<noteq> None \<Longrightarrow> audioContext (snd (initialize p this)) \<noteq> None"
  "processorNode this \<noteq> None \<Longrightarrow> processorNode (snd (initialize p this)) \<noteq> None"
  by (simp_all add: initialize_def Let_def split: sum.splits)

lemma initialize_success:
  assumes "fst (initialize p this) = Inr ()"
  shows "audioContext (snd (initialize p this)) \<noteq> None"
    and "mediaStream (snd (initialize p this)) \<noteq> None"
    and "sourceNode (snd (initialize p this)) \<noteq> None"
    and "processorNode (snd (initialize p this)) \<noteq> None"
  using assms by (auto simp add: initialize_def Let_def split: sum.splits)

lemma initialize_failure:
  "fst (initialize p this) = Inl err \<Longrightarrow> \<exists>e. err = initFailure e"
  by (auto simp add: initialize_def Let_def split: sum.splits)

lemma initialize_result_format:
  assumes "sampleRate a = sampleRate b" "channelCount a = channelCount b"
  shows "fst (initialize p a) = fst (initialize p b)"
  using assms by (simp add: initialize_def Let_def split: sum.splits)

lemma stopRecording_eq:
  "stopRecording this =
     (if isRecording this
      then (Inr \<lparr>blob_data = wavHeader (sampleRate this) (channelCount this)
                                (int (sampleCount (audioBuffer this)) * 2)
                              @ concat (map pcmBytes (concat (audioBuffer this))),
                  blob_type = ''audio/wav''\<rparr>,
            this\<lparr>isRecording := False, isPaused := False, audioBuffer := []\<rparr>)
      else (Inl (Error ''No recording in progress''), this))"
  by (simp add: stopRecording_def Let_def createWAVBlob_eq)

lemma reachable_invariant:
  assumes "reachable options this"
  shows "sampleRate this = orDefault (opt_sampleRate options) 44100
     \<and> channelCount this = orDefault (opt_channelCount options) 2
     \<and> (isRecording this \<longrightarrow> audioContext this \<noteq> None \<and> processorNode this \<noteq> None)"
  using assms
proof (induction rule: reachable.induct)
  case (r_new options)
  then show ?case by (simp add: constructor_def)
next
  case (r_initialize options this p)
  then show ?case by (simp add: initialize_keeps initialize_keeps_handles)
next
  case (r_start options this)
  then show ?case by (simp add: startRecording_def)
next
  case (r_pause options this)
  then show ?case by (simp add: pauseRecording_def)
next
  case (r_resume options this)
  then show ?case by (simp add: resumeRecording_def)
next
  case (r_stop options this)
  then show ?case by (simp add: stopRecording_eq)
next
  case (r_cleanup options this)
  then show ?case by (simp add: cleanup_def Let_def)
next
  case (r_deliver options this b)
  then show ?case by (simp add: onaudioprocess_def)
qed

lemma run_Cons: "run (e # es) this = run es (step e this)"
  by (simp add: run_def)

lemma run_Nil: "run [] this = this"
  by (simp add: run_def)

lemma step_keeps:
  "isRecording (step e this) = isRecording this"
  "sampleRate (step e this) = sampleRate this"
  "channelCount (step e this) = channelCount this"
  by (cases e; simp add: onaudioprocess_def pauseRecording_def resumeRecording_def)+

lemma run_keeps:
  "isRecording (run es this) = isRecording this
   \<and> sampleRate (run es this) = sampleRate this
   \<and> channelCount (run es this) = channelCount this"
  by (induction es arbitrary: this) (simp_all add: run_Nil run_Cons step_keeps)

lemma run_audioBuffer:
  "isRecording this \<Longrightarrow>
   audioBuffer (run es this) =
     audioBuffer this @ map interleave (delivered (isPaused this) es)"
proof (induction es arbitrary: this)
  case Nil
  then show ?case by (simp add: run_Nil)
next
  case (Cons e es)
  from Cons.prems have rec: "isRecording (step e this)"
    by (simp add: step_keeps)
  show ?case
    unfolding run_Cons Cons.IH [OF rec]
    using Cons.prems
    by (cases e) (simp_all add: onaudioprocess_def pauseRecording_def resumeRecording_def)
qed


lemma delivered_all:
  "delivered False (map Deliver xs @ es) = xs @ delivered False es"
  by (induction xs) simp_all

lemma delivered_none:
  "delivered True (map Deliver ys @ es) = delivered True es"
  by (induction ys) simp_all

lemma delivered_round_trip:
  "delivered False (map Deliver xs @ [Pause] @ map Deliver ys @ [Resume] @ map Deliver zs)
     = xs @ zs"
  using delivered_all [of zs "[]"]
  by (simp add: delivered_all delivered_none)

lemma phase_Recording: "phase this = Recording \<longleftrightarrow> isRecording this \<and> \<not> isPaused this"
  by (simp add: phase_def)

lemma phase_Paused: "phase this = Paused \<longleftrightarrow> isRecording this \<and> isPaused this"
  by (simp add: phase_def)




lemma initialize_stream:
  "getUserMedia p
      \<lparr>constraint_sampleRate = sampleRate this,
          constraint_channelCount = channelCount this,
          echoCancellation = False, noiseSuppression = False,
          autoGainControl = False\<rparr> = Inr stream
   \<Longrightarrow> mediaStream (snd (initialize p this)) = Some stream"
  by (simp add: initialize_def Let_def split: sum.splits)

lemma initialize_context:
  "getUserMedia p
      \<lparr>constraint_sampleRate = sampleRate this,
          constraint_channelCount = channelCount this,
          echoCancellation = False, noiseSuppression = False,
          autoGainControl = False\<rparr> = Inr stream
   \<Longrightarrow> newAudioContext p (sampleRate this) = Inr ctx
   \<Longrightarrow> audioContext (snd (initialize p this)) = Some ctx"
  by (simp add: initialize_def Let_def split: sum.splits)

lemma initialize_success_eq:
  "platformDelivers p this stream ctx src proc \<Longrightarrow>
   initialize p this =
     (Inr (), this\<lparr>mediaStream := Some stream, audioContext := Some ctx,
                    sourceNode := Some src, processorNode := Some proc\<rparr>)"
  by (simp add: platformDelivers_def initialize_def Let_def)

lemma initialize_success_calls:
  "fst (initialize p this) = Inr () \<Longrightarrow>
   \<exists>stream ctx src proc. platformDelivers p this stream ctx src proc"
  by (auto simp add: platformDelivers_def initialize_def Let_def split: sum.splits)

lemma initialize_frame:
  "(snd (initialize q this))\<lparr>mediaStream := m, audioContext := a,
                               sourceNode := sn, processorNode := pn\<rparr>
     = this\<lparr>mediaStream := m, audioContext := a, sourceNode := sn, processorNode := pn\<rparr>"
  by (simp add: initialize_def Let_def split: sum.splits)

lemma reachable_voiceRecording: "reachable voiceOptions voiceRecording"
  unfolding voiceRecording_def by (intro reachable.intros)

lemma reachable_demoReady: "reachable demoOptions demoReady"
  unfolding demoReady_def by (intro reachable.intros)

lemma reachable_demoTwice: "reachable demoOptions demoTwice"
  unfolding demoTwice_def by (intro reachable.intros reachable_demoReady)

section \<open>The session as a state machine\<close>

text \<open>
  Claim C3. The callback appends a chunk exactly when the session is Recording (recording
  and not paused) and leaves the capture buffer alone otherwise. The chunk is the block
  it was delivered, interleaved: as many samples as frames times channels, sample \<open>i\<close>
  of channel \<open>c\<close> at position \<open>i * channels + c\<close>. Over any run of deliveries, pauses
  and resumes of a session that is recording, the capture buffer grows by exactly the
  blocks delivered while the session is not paused, each once and in the order of
  delivery, and \<open>stopRecording\<close> then encodes exactly these samples after the header.
  In particular, for blocks \<open>xs\<close> delivered before a pause, \<open>ys\<close> between the pause
  and the resume and \<open>zs\<close> after the resume, the blocks kept are \<open>xs\<close> followed by
  \<open>zs\<close>.
\<close>

theorem capture_only_while_recording:
  assumes "isRecording this"
  shows "(\<forall>b r. audioBuffer (onaudioprocess b r) =
            (if phase r = Recording then audioBuffer r @ [interleave b] else audioBuffer r))
     \<and> (\<forall>b. length (interleave b) = ab_length b * numberOfChannels b)
     \<and> (\<forall>b i c. (\<forall>ch \<in> set (ab_channelData b). length ch = ab_length b)
            \<longrightarrow> i < ab_length b \<longrightarrow> c < numberOfChannels b
            \<longrightarrow> interleave b ! (i * numberOfChannels b + c) = ab_channelData b ! c ! i)
     \<and> audioBuffer (run events this) =
          audioBuffer this @ map interleave (delivered (isPaused this) events)
     \<and> (\<exists>view. fst (stopRecording (run events this))
                  = Inr \<lparr>blob_data = view, blob_type = ''audio/wav''\<rparr>
           \<and> drop 44 view = concat (map pcmBytes (concat
                (audioBuffer this @ map interleave (delivered (isPaused this) events)))))
     \<and> delivered False (map Deliver xs @ [Pause] @ map Deliver ys @ [Resume] @ map Deliver zs)
          = xs @ zs"
proof -
  have gate: "\<forall>b r. audioBuffer (onaudioprocess b r) =
            (if phase r = Recording then audioBuffer r @ [interleave b] else audioBuffer r)"
    by (simp add: onaudioprocess_def phase_Recording)
  have shape: "\<forall>b. length (interleave b) = ab_length b * numberOfChannels b"
    by (simp add: length_interleave)
  have content: "\<forall>b i c. (\<forall>ch \<in> set (ab_channelData b). length ch = ab_length b)
            \<longrightarrow> i < ab_length b \<longrightarrow> c < numberOfChannels b
            \<longrightarrow> interleave b ! (i * numberOfChannels b + c) = ab_channelData b ! c ! i"
    using interleave_nth by blast
  have buf: "audioBuffer (run events this) =
          audioBuffer this @ map interleave (delivered (isPaused this) events)"
    using assms by (rule run_audioBuffer)
  have rec: "isRecording (run events this)"
    using assms run_keeps [of events this] by simp
  have "fst (stopRecording (run events this)) =
      Inr \<lparr>blob_data = wavHeader (sampleRate (run events this)) (channelCount (run events this))
                          (int (sampleCount (audioBuffer (run events this))) * 2)
                        @ concat (map pcmBytes (concat (audioBuffer (run events this)))),
            blob_type = ''audio/wav''\<rparr>"
    using rec by (simp add: stopRecording_eq)
  then have out: "\<exists>view. fst (stopRecording (run events this))
                  = Inr \<lparr>blob_data = view, blob_type = ''audio/wav''\<rparr>
           \<and> drop 44 view = concat (map pcmBytes (concat
                (audioBuffer this @ map interleave (delivered (isPaused this) events))))"
    unfolding buf by (simp add: length_wavHeader)
  show ?thesis
    by (intro conjI) (rule gate shape content buf out delivered_round_trip)+
qed

theorem capture_only_while_recording_witness:
  "isRecording demoRecording
   \<and> audioBuffer (run demoEvents demoRecording) =
       [[Finite (1/2), Finite (-1/2), Finite (3/2), Finite (-3/2)], [Finite 1, Finite (-1)]]
   \<and> (\<exists>view. fst (stopRecording (run demoEvents demoRecording))
                = Inr \<lparr>blob_data = view, blob_type = ''audio/wav''\<rparr>
         \<and> drop 44 view = [255, 63, 0, 192, 255, 127, 0, 128, 255, 127, 0, 128])
   \<and> ab_length blockA = 2 \<and> map length (ab_channelData blockA) = [2, 2]
   \<and> length (interleave blockA) = 4
   \<and> interleave blockA ! (1 * numberOfChannels blockA + 1) = Finite (- 3/2)"
proof -
  have h: "isRecording demoRecording"
    by (simp add: demoRecording_eq demoReady_eq)
  have d: "audioBuffer demoRecording @ map interleave (delivered (isPaused demoRecording) demoEvents)
      = [[Finite (1/2), Finite (-1/2), Finite (3/2), Finite (-3/2)], [Finite 1, Finite (-1)]]"
    by (simp add: demoRecording_eq demoReady_eq demoEvents_def interleave_blockA
        interleave_blockC)
  have wf: "\<forall>ch \<in> set (ab_channelData blockA). length ch = ab_length blockA"
    by (simp add: blockA_def)
  have idx: "1 < ab_length blockA" "1 < numberOfChannels blockA"
    by (simp_all add: blockA_def numberOfChannels_def)
  note t = capture_only_while_recording [OF h, of demoEvents]
  from t have buf: "audioBuffer (run demoEvents demoRecording) =
       [[Finite (1/2), Finite (-1/2), Finite (3/2), Finite (-3/2)], [Finite 1, Finite (-1)]]"
    unfolding d by blast
  from t have "\<exists>view. fst (stopRecording (run demoEvents demoRecording))
                = Inr \<lparr>blob_data = view, blob_type = ''audio/wav''\<rparr>
         \<and> drop 44 view = concat (map pcmBytes (concat
             [[Finite (1/2), Finite (-1/2), Finite (3/2), Finite (-3/2)], [Finite 1, Finite (-1)]]))"
    unfolding d by blast
  then have out: "\<exists>view. fst (stopRecording (run demoEvents demoRecording))
                = Inr \<lparr>blob_data = view, blob_type = ''audio/wav''\<rparr>
         \<and> drop 44 view = [255, 63, 0, 192, 255, 127, 0, 128, 255, 127, 0, 128]"
    by (simp add: pcmBytes_values)
  from t have len: "length (interleave blockA) = ab_length blockA * numberOfChannels blockA"
    by blast
  then have len4: "length (interleave blockA) = 4"
    by (simp add: blockA_def numberOfChannels_def)
  from t wf idx
  have "interleave blockA ! (1 * numberOfChannels blockA + 1) = ab_channelData blockA ! 1 ! 1"
    by blast
  then have at: "interleave blockA ! (1 * numberOfChannels blockA + 1) = Finite (- 3/2)"
    by (simp add: blockA_def)
  have frames: "ab_length blockA = 2" "map length (ab_channelData blockA) = [2, 2]"
    by (simp_all add: blockA_def)
  from h buf out frames len4 at show ?thesis by blast
qed





section \<open>Where the recorder differs from the state machine of the specification\<close>

text \<open>
  Claim C5 says the header carries the sample rate the device negotiated, not merely the
  requested one. On the platform whose microphone delivers 48000 Hz to a recorder asking
  for 44100 Hz, the stream the recorder holds is at 48000 Hz and the header it writes says
  44100 Hz, with a byte rate of 176400.
\<close>

theorem header_rate_counterexample:
  "mediaStream demoCaptured = Some \<lparr>track_sampleRate = 48000, track_channelCount = 1\<rparr>
   \<and> (\<exists>view. fst (stopRecording demoCaptured)
                = Inr \<lparr>blob_data = view, blob_type = ''audio/wav''\<rparr>
         \<and> getUint32 view 24 = 44100 \<and> getUint32 view 24 \<noteq> 48000
         \<and> getUint32 view 28 = 176400)"
proof -
  let ?view = "wavHeader 44100 2 (int (sampleCount (audioBuffer demoCaptured)) * 2)
      @ concat (map pcmBytes (concat (audioBuffer demoCaptured)))"
  have m: "mediaStream demoCaptured = Some \<lparr>track_sampleRate = 48000, track_channelCount = 1\<rparr>"
    by (simp add: demoCaptured_eq demoRecording_eq demoReady_eq)
  have s: "fst (stopRecording demoCaptured) = Inr \<lparr>blob_data = ?view, blob_type = ''audio/wav''\<rparr>"
    by (simp add: stopRecording_eq demoCaptured_eq demoRecording_eq demoReady_eq)
  have r: "getUint32 ?view 24 = 44100"
    using header_fields(8) [of 44100 2] by simp
  have b: "getUint32 ?view 28 = 176400"
    using header_fields(9) [of 44100 2] by (simp add: times64_exact)
  from r have n: "getUint32 ?view 24 \<noteq> 48000" by simp
  from m s r n b show ?thesis by blast
qed

text \<open>
  Claim C5, amended. The sample rate in the header (offset 24, and inside the byte rate
  at offset 28) is the rate the recorder was constructed with, the requested rate or
  44100 by default, whatever the platform delivers: in every state a recorder can reach,
  on any platform, the \<open>sampleRate\<close> field holds that rate, \<open>initialize\<close> leaves it
  as it is, and a successful \<open>stopRecording\<close> writes it. It is also the rate
  \<open>initialize\<close> asks of the platform: the stream the recorder then holds is the answer
  of \<open>getUserMedia\<close> to the constraints that carry this rate, and its context is the
  answer of the \<open>AudioContext\<close> constructor to this rate.
\<close>

theorem header_rate_is_configured:
  assumes "reachable options this" and "stopRecording this = (Inr wavBlob, this')"
  shows "getUint32 (blob_data wavBlob) 24 = orDefault (opt_sampleRate options) 44100 mod 2 ^ 32
     \<and> getUint32 (blob_data wavBlob) 28
          = (times64 (orDefault (opt_sampleRate options) 44100)
               (orDefault (opt_channelCount options) 2) * 2) mod 2 ^ 32
     \<and> sampleRate this = orDefault (opt_sampleRate options) 44100
     \<and> (\<forall>p. sampleRate (snd (initialize p this)) = orDefault (opt_sampleRate options) 44100)
     \<and> (\<forall>p stream.
          getUserMedia p
             \<lparr>constraint_sampleRate = orDefault (opt_sampleRate options) 44100,
              constraint_channelCount = orDefault (opt_channelCount options) 2,
              echoCancellation = False, noiseSuppression = False,
              autoGainControl = False\<rparr> = Inr stream
          \<longrightarrow> mediaStream (snd (initialize p this)) = Some stream)
     \<and> (\<forall>p stream ctx.
          getUserMedia p
             \<lparr>constraint_sampleRate = orDefault (opt_sampleRate options) 44100,
              constraint_channelCount = orDefault (opt_channelCount options) 2,
              echoCancellation = False, noiseSuppression = False,
              autoGainControl = False\<rparr> = Inr stream
          \<and> newAudioContext p (orDefault (opt_sampleRate options) 44100) = Inr ctx
          \<longrightarrow> audioContext (snd (initialize p this)) = Some ctx)"
proof -
  from reachable_invariant [OF assms(1)]
  have fmt: "sampleRate this = orDefault (opt_sampleRate options) 44100"
      "channelCount this = orDefault (opt_channelCount options) 2"
    by simp_all
  from assms(2) have "isRecording this"
    by (simp add: stopRecording_eq split: if_splits)
  with assms(2) have "blob_data wavBlob =
      wavHeader (sampleRate this) (channelCount this)
          (int (sampleCount (audioBuffer this)) * 2)
        @ concat (map pcmBytes (concat (audioBuffer this)))"
    by (auto simp add: stopRecording_eq)
  then have header: "getUint32 (blob_data wavBlob) 24 = sampleRate this mod 2 ^ 32"
      "getUint32 (blob_data wavBlob) 28
         = (times64 (sampleRate this) (channelCount this) * 2) mod 2 ^ 32"
    using header_fields(8,9) [of "sampleRate this" "channelCount this"] by simp_all
  have kept: "\<forall>p. sampleRate (snd (initialize p this)) = sampleRate this"
    by (simp add: initialize_keeps)
  have asked: "\<forall>p stream.
          getUserMedia p
             \<lparr>constraint_sampleRate = sampleRate this,
          constraint_channelCount = channelCount this,
          echoCancellation = False, noiseSuppression = False,
          autoGainControl = False\<rparr> = Inr stream
          \<longrightarrow> mediaStream (snd (initialize p this)) = Some stream"
    using initialize_stream by blast
  have ctx: "\<forall>p stream ctx.
          getUserMedia p
             \<lparr>constraint_sampleRate = sampleRate this,
          constraint_channelCount = channelCount this,
          echoCancellation = False, noiseSuppression = False,
          autoGainControl = False\<rparr> = Inr stream
          \<and> newAudioContext p (sampleRate this) = Inr ctx
          \<longrightarrow> audioContext (snd (initialize p this)) = Some ctx"
    using initialize_context by blast
  show ?thesis
    using header kept asked ctx fmt(1) unfolding fmt by (intro conjI)
qed

theorem header_rate_is_configured_witness:
  "reachable voiceOptions voiceRecording
   \<and> (\<exists>wavBlob this'. stopRecording voiceRecording = (Inr wavBlob, this')
         \<and> getUint32 (blob_data wavBlob) 24 = 16000
         \<and> getUint32 (blob_data wavBlob) 28 = 32000)
   \<and> mediaStream (snd (initialize echoPlatform voiceRecording))
       = Some \<lparr>track_sampleRate = 16000, track_channelCount = 1\<rparr>
   \<and> audioContext (snd (initialize echoPlatform voiceRecording))
       = Some \<lparr>context_sampleRate = 16000\<rparr>"
proof -
  obtain res this' where st: "stopRecording voiceRecording = (res, this')"
    by (cases "stopRecording voiceRecording")
  have "isRecording voiceRecording"
    by (simp add: voiceRecording_eq)
  with st obtain wavBlob where res: "res = Inr wavBlob"
    by (auto simp add: stopRecording_eq)
  note t = header_rate_is_configured [OF reachable_voiceRecording st [unfolded res]]
  have opts: "orDefault (opt_sampleRate voiceOptions) 44100 = 16000"
      "orDefault (opt_channelCount voiceOptions) 2 = 1"
    by (simp_all add: voiceOptions_def)
  have g: "getUserMedia echoPlatform
      \<lparr>constraint_sampleRate = 16000, constraint_channelCount = 1,
       echoCancellation = False, noiseSuppression = False, autoGainControl = False\<rparr>
      = Inr \<lparr>track_sampleRate = 16000, track_channelCount = 1\<rparr>"
    by (simp add: echoPlatform_def demoPlatform_def)
  have c: "newAudioContext echoPlatform 16000 = Inr \<lparr>context_sampleRate = 16000\<rparr>"
    by (simp add: echoPlatform_def demoPlatform_def)
  from t have "getUint32 (blob_data wavBlob) 24 = 16000"
      "getUint32 (blob_data wavBlob) 28 = 32000"
    unfolding opts by (simp_all add: times64_exact)
  moreover from t g have "mediaStream (snd (initialize echoPlatform voiceRecording))
       = Some \<lparr>track_sampleRate = 16000, track_channelCount = 1\<rparr>"
    unfolding opts by blast
  moreover from t g c have "audioContext (snd (initialize echoPlatform voiceRecording))
       = Some \<lparr>context_sampleRate = 16000\<rparr>"
    unfolding opts by blast
  ultimately show ?thesis
    using st res reachable_voiceRecording by blast
qed

text \<open>
  Claim C7 says a second \<open>initialize\<close> with no \<open>cleanup\<close> in between fails. On the
  platform where every call succeeds, the first call succeeds and so does the second.
\<close>

theorem initialize_twice_counterexample:
  "fst (initialize demoPlatform (constructor demoOptions)) = Inr ()
   \<and> fst (initialize demoPlatform (snd (initialize demoPlatform (constructor demoOptions))))
       = Inr ()"
  by (simp add: initialize_def demoPlatform_def constructor_def demoOptions_def)

text \<open>
  Claim C7, amended. \<open>initialize\<close> does not look at the state of the recorder: a
  call made after an earlier \<open>initialize\<close> (on any platform \<open>q\<close>), with no
  \<open>cleanup\<close> in between, returns what the call made instead of it returns. It
  succeeds exactly when the six platform calls it makes all succeed; the recorder then
  holds the four objects just created in place of any it held, which is the state the
  call made instead of the earlier one leaves. It fails only when a platform call throws,
  with the error "Failed to initialize audio recorder: ..." around that exception.
\<close>

theorem initialize_has_no_state_guard:
  "fst (initialize p (snd (initialize q this))) = fst (initialize p this)
   \<and> (fst (initialize p this) = Inr () \<longrightarrow>
        snd (initialize p (snd (initialize q this))) = snd (initialize p this))
   \<and> (\<forall>stream ctx src proc. platformDelivers p this stream ctx src proc \<longrightarrow>
        initialize p (snd (initialize q this)) =
          (Inr (), this\<lparr>mediaStream := Some stream, audioContext := Some ctx,
                        sourceNode := Some src, processorNode := Some proc\<rparr>)
        \<and> initialize p this =
          (Inr (), this\<lparr>mediaStream := Some stream, audioContext := Some ctx,
                        sourceNode := Some src, processorNode := Some proc\<rparr>))
   \<and> (fst (initialize p this) = Inr () \<longrightarrow>
        (\<exists>stream ctx src proc. platformDelivers p this stream ctx src proc))
   \<and> (\<forall>err. fst (initialize p this) = Inl err \<longrightarrow> (\<exists>e. err = initFailure e))"
proof -
  have same: "fst (initialize p (snd (initialize q this))) = fst (initialize p this)"
    by (rule initialize_result_format) (simp_all add: initialize_keeps)
  have both: "initialize p (snd (initialize q this)) =
          (Inr (), this\<lparr>mediaStream := Some stream, audioContext := Some ctx,
                        sourceNode := Some src, processorNode := Some proc\<rparr>)
        \<and> initialize p this =
          (Inr (), this\<lparr>mediaStream := Some stream, audioContext := Some ctx,
                        sourceNode := Some src, processorNode := Some proc\<rparr>)"
    if d: "platformDelivers p this stream ctx src proc" for stream ctx src proc
  proof -
    from d have d': "platformDelivers p (snd (initialize q this)) stream ctx src proc"
      by (simp add: platformDelivers_def initialize_keeps)
    show ?thesis
      by (simp add: initialize_success_eq [OF d] initialize_success_eq [OF d']
          initialize_frame)
  qed
  have calls: "\<exists>stream ctx src proc. platformDelivers p this stream ctx src proc"
    if "fst (initialize p this) = Inr ()"
    using that by (rule initialize_success_calls)
  have state: "snd (initialize p (snd (initialize q this))) = snd (initialize p this)"
    if "fst (initialize p this) = Inr ()"
  proof -
    from calls [OF that] obtain stream ctx src proc
      where "platformDelivers p this stream ctx src proc"
      by blast
    from both [OF this] show ?thesis
      by simp
  qed
  have wrapped: "\<exists>e. err = initFailure e" if "fst (initialize p this) = Inl err" for err
    using that by (rule initialize_failure)
  show ?thesis
    using same state both calls wrapped by blast
qed

theorem initialize_has_no_state_guard_witness:
  "platformDelivers echoPlatform (constructor demoOptions)
     \<lparr>track_sampleRate = 44100, track_channelCount = 2\<rparr>
     \<lparr>context_sampleRate = 44100\<rparr>
     \<lparr>source_stream = \<lparr>track_sampleRate = 44100, track_channelCount = 2\<rparr>\<rparr>
     \<lparr>bufferSize = 4096, numberOfInputChannels = 2, numberOfOutputChannels = 2\<rparr>
   \<and> fst (initialize echoPlatform demoReady) = Inr ()
   \<and> mediaStream demoReady = Some \<lparr>track_sampleRate = 48000, track_channelCount = 1\<rparr>
   \<and> mediaStream (snd (initialize echoPlatform demoReady))
       = Some \<lparr>track_sampleRate = 44100, track_channelCount = 2\<rparr>
   \<and> snd (initialize echoPlatform demoReady)
       = snd (initialize echoPlatform (constructor demoOptions))
   \<and> fst (initialize deniedPlatform (constructor demoOptions))
       = Inl (initFailure ''NotAllowedError: Permission denied'')
   \<and> fst (initialize deniedPlatform demoReady)
       = Inl (initFailure ''NotAllowedError: Permission denied'')"
proof -
  have d: "platformDelivers echoPlatform (constructor demoOptions)
     \<lparr>track_sampleRate = 44100, track_channelCount = 2\<rparr>
     \<lparr>context_sampleRate = 44100\<rparr>
     \<lparr>source_stream = \<lparr>track_sampleRate = 44100, track_channelCount = 2\<rparr>\<rparr>
     \<lparr>bufferSize = 4096, numberOfInputChannels = 2, numberOfOutputChannels = 2\<rparr>"
    by (simp add: platformDelivers_def echoPlatform_def demoPlatform_def constructor_def
        demoOptions_def)
  have first: "mediaStream demoReady = Some \<lparr>track_sampleRate = 48000, track_channelCount = 1\<rparr>"
    by (simp add: demoReady_eq)
  have denied: "fst (initialize deniedPlatform (constructor demoOptions))
      = Inl (initFailure ''NotAllowedError: Permission denied'')"
    by (simp add: initialize_def deniedPlatform_def demoPlatform_def)
  note t = initialize_has_no_state_guard
    [of echoPlatform demoPlatform "constructor demoOptions", folded demoReady_def]
  from t d have second: "initialize echoPlatform demoReady =
      (Inr (), (constructor demoOptions)
         \<lparr>mediaStream := Some \<lparr>track_sampleRate = 44100, track_channelCount = 2\<rparr>,
          audioContext := Some \<lparr>context_sampleRate = 44100\<rparr>,
          sourceNode := Some \<lparr>source_stream = \<lparr>track_sampleRate = 44100, track_channelCount = 2\<rparr>\<rparr>,
          processorNode := Some \<lparr>bufferSize = 4096, numberOfInputChannels = 2,
                                 numberOfOutputChannels = 2\<rparr>\<rparr>)"
    by blast
  from t d have alone: "fst (initialize echoPlatform (constructor demoOptions)) = Inr ()"
    by (metis fst_conv)
  have a: "fst (initialize echoPlatform demoReady) = Inr ()"
    unfolding second by simp
  have b: "mediaStream (snd (initialize echoPlatform demoReady))
       = Some \<lparr>track_sampleRate = 44100, track_channelCount = 2\<rparr>"
    unfolding second by simp
  from t alone have c: "snd (initialize echoPlatform demoReady)
       = snd (initialize echoPlatform (constructor demoOptions))"
    by blast
  note u = initialize_has_no_state_guard
    [of deniedPlatform demoPlatform "constructor demoOptions", folded demoReady_def]
  from u denied have e: "fst (initialize deniedPlatform demoReady)
      = Inl (initFailure ''NotAllowedError: Permission denied'')"
    by simp
  from d a first b c denied e show ?thesis by blast
qed

text \<open>
  Claim C8 says \<open>pauseRecording\<close> outside Recording and \<open>resumeRecording\<close> outside
  Paused are reported as errors. On a recorder just constructed, \<open>pauseRecording\<close>
  returns normally and sets the flag; on a session that is Recording, not Paused,
  \<open>resumeRecording\<close> returns normally.
\<close>

theorem pause_resume_counterexample:
  "phase (constructor demoOptions) = Uninitialized
   \<and> fst (pauseRecording (constructor demoOptions)) = Inr ()
   \<and> isPaused (snd (pauseRecording (constructor demoOptions)))
   \<and> phase demoRecording = Recording
   \<and> fst (resumeRecording demoRecording) = Inr ()"
  by (simp add: phase_def constructor_def pauseRecording_def resumeRecording_def
      demoRecording_eq demoReady_eq)

text \<open>
  Claim C8, amended. \<open>pauseRecording\<close> and \<open>resumeRecording\<close> never fail: in any
  state the first sets \<open>isPaused\<close>, the second clears it, and nothing else changes.
  So \<open>pauseRecording\<close> takes Recording to Paused and \<open>resumeRecording\<close> takes
  Paused to Recording, and in every other state the session stays in the state it is in.
\<close>

theorem pause_resume_never_fail:
  "pauseRecording this = (Inr (), this\<lparr>isPaused := True\<rparr>)
   \<and> resumeRecording this = (Inr (), this\<lparr>isPaused := False\<rparr>)
   \<and> phase (snd (pauseRecording this)) = (if phase this = Recording then Paused else phase this)
   \<and> phase (snd (resumeRecording this)) = (if phase this = Paused then Recording else phase this)"
proof (intro conjI)
  show p: "pauseRecording this = (Inr (), this\<lparr>isPaused := True\<rparr>)"
    by (simp add: pauseRecording_def)
  show r: "resumeRecording this = (Inr (), this\<lparr>isPaused := False\<rparr>)"
    by (simp add: resumeRecording_def)
  show "phase (snd (pauseRecording this))
      = (if phase this = Recording then Paused else phase this)"
    unfolding p by (cases "isRecording this"; cases "isPaused this"; simp add: phase_def)
  show "phase (snd (resumeRecording this))
      = (if phase this = Paused then Recording else phase this)"
    unfolding r by (cases "isRecording this"; cases "isPaused this"; simp add: phase_def)
qed

theorem pause_resume_never_fail_witness:
  "phase demoRecording = Recording
   \<and> phase (snd (pauseRecording demoRecording)) = Paused
   \<and> phase (snd (resumeRecording (snd (pauseRecording demoRecording)))) = Recording
   \<and> phase (snd (pauseRecording demoReady)) = Initialized"
proof -
  have a: "phase demoRecording = Recording"
    by (simp add: phase_def demoRecording_eq demoReady_eq)
  have a': "phase demoReady = Initialized"
    by (simp add: phase_def demoReady_eq)
  from pause_resume_never_fail [of demoRecording]
  have "phase (snd (pauseRecording demoRecording))
      = (if phase demoRecording = Recording then Paused else phase demoRecording)"
    by blast
  then have b: "phase (snd (pauseRecording demoRecording)) = Paused"
    unfolding a by simp
  from pause_resume_never_fail [of "snd (pauseRecording demoRecording)"]
  have "phase (snd (resumeRecording (snd (pauseRecording demoRecording))))
      = (if phase (snd (pauseRecording demoRecording)) = Paused then Recording
         else phase (snd (pauseRecording demoRecording)))"
    by blast
  then have c: "phase (snd (resumeRecording (snd (pauseRecording demoRecording)))) = Recording"
    unfolding b by simp
  from pause_resume_never_fail [of demoReady]
  have "phase (snd (pauseRecording demoReady))
      = (if phase demoReady = Recording then Paused else phase demoReady)"
    by blast
  then have d: "phase (snd (pauseRecording demoReady)) = Initialized"
    unfolding a' by simp
  from a b c d show ?thesis by blast
qed

section \<open>cleanup\<close>

text \<open>
  Claim C9 says \<open>cleanup\<close> releases all device and processing resources, from any
  state. A recorder initialized twice with no cleanup in between holds only the second
  stream and the second source node: \<open>cleanup\<close> stops the tracks of the second stream
  and disconnects the second source, and makes no call on the first stream, at 48000 Hz,
  nor on the source node built on it.
\<close>

theorem cleanup_leak_counterexample:
  "reachable demoOptions demoReady
   \<and> mediaStream demoReady = Some \<lparr>track_sampleRate = 48000, track_channelCount = 1\<rparr>
   \<and> fst (initialize echoPlatform demoReady) = Inr ()
   \<and> reachable demoOptions demoTwice
   \<and> (\<exists>calls. fst (cleanup demoTwice) = Inr calls
         \<and> calls =
            [ProcessorDisconnect \<lparr>bufferSize = 4096, numberOfInputChannels = 2,
                                   numberOfOutputChannels = 2\<rparr>,
             SourceDisconnect
               \<lparr>source_stream = \<lparr>track_sampleRate = 44100, track_channelCount = 2\<rparr>\<rparr>,
             ContextClose \<lparr>context_sampleRate = 44100\<rparr>,
             TracksStop \<lparr>track_sampleRate = 44100, track_channelCount = 2\<rparr>]
         \<and> TracksStop \<lparr>track_sampleRate = 48000, track_channelCount = 1\<rparr> \<notin> set calls
         \<and> SourceDisconnect
              \<lparr>source_stream = \<lparr>track_sampleRate = 48000, track_channelCount = 1\<rparr>\<rparr>
             \<notin> set calls)"
proof -
  have first: "mediaStream demoReady = Some \<lparr>track_sampleRate = 48000, track_channelCount = 1\<rparr>"
    by (simp add: demoReady_eq)
  have ok: "fst (initialize echoPlatform demoReady) = Inr ()"
    by (simp add: demoReady_eq initialize_def echoPlatform_def demoPlatform_def)
  have calls: "fst (cleanup demoTwice) =
      Inr [ProcessorDisconnect \<lparr>bufferSize = 4096, numberOfInputChannels = 2,
                                 numberOfOutputChannels = 2\<rparr>,
           SourceDisconnect
             \<lparr>source_stream = \<lparr>track_sampleRate = 44100, track_channelCount = 2\<rparr>\<rparr>,
           ContextClose \<lparr>context_sampleRate = 44100\<rparr>,
           TracksStop \<lparr>track_sampleRate = 44100, track_channelCount = 2\<rparr>]"
    by (simp add: cleanup_def Let_def demoTwice_eq)
  show ?thesis
    using reachable_demoReady first ok reachable_demoTwice calls by simp
qed

text \<open>
  Claim C9, amended. In any state, also in the middle of a recording, \<open>cleanup\<close>
  returns normally. It makes one release call for each handle the recorder holds at the
  call (disconnect the processor, disconnect the source, close the context, stop the
  tracks of the stream) and no other, so an object whose handle a later \<open>initialize\<close>
  has overwritten is not released. It drops the four handles, empties the capture buffer
  and clears both flags, so the session is Uninitialized. A second \<open>cleanup\<close> makes no
  call and leaves the state as the first left it.
\<close>

theorem cleanup_idempotent:
  "(\<exists>calls. fst (cleanup this) = Inr calls
      \<and> set calls = ProcessorDisconnect ` set_option (processorNode this)
          \<union> SourceDisconnect ` set_option (sourceNode this)
          \<union> ContextClose ` set_option (audioContext this)
          \<union> TracksStop ` set_option (mediaStream this))
   \<and> snd (cleanup this) =
        this\<lparr>processorNode := None, sourceNode := None, audioContext := None,
             mediaStream := None, audioBuffer := [], isRecording := False,
             isPaused := False\<rparr>
   \<and> phase (snd (cleanup this)) = Uninitialized
   \<and> cleanup (snd (cleanup this)) = (Inr [], snd (cleanup this))"
proof (intro conjI)
  show "\<exists>calls. fst (cleanup this) = Inr calls
      \<and> set calls = ProcessorDisconnect ` set_option (processorNode this)
          \<union> SourceDisconnect ` set_option (sourceNode this)
          \<union> ContextClose ` set_option (audioContext this)
          \<union> TracksStop ` set_option (mediaStream this)"
    by (auto simp add: cleanup_def Let_def split: option.splits)
  show "snd (cleanup this) =
        this\<lparr>processorNode := None, sourceNode := None, audioContext := None,
             mediaStream := None, audioBuffer := [], isRecording := False,
             isPaused := False\<rparr>"
    by (simp add: cleanup_def Let_def)
  show "phase (snd (cleanup this)) = Uninitialized"
    by (simp add: cleanup_def Let_def phase_def)
  show "cleanup (snd (cleanup this)) = (Inr [], snd (cleanup this))"
    by (simp add: cleanup_def Let_def)
qed

theorem cleanup_idempotent_witness:
  "phase demoCaptured = Recording
   \<and> phase (snd (cleanup demoCaptured)) = Uninitialized
   \<and> audioBuffer (snd (cleanup demoCaptured)) = []
   \<and> cleanup (snd (cleanup demoCaptured)) = (Inr [], snd (cleanup demoCaptured))"
proof -
  have a: "phase demoCaptured = Recording"
    by (simp add: phase_def demoCaptured_eq demoRecording_eq demoReady_eq)
  from cleanup_idempotent [of demoCaptured]
  have "phase (snd (cleanup demoCaptured)) = Uninitialized"
      "snd (cleanup demoCaptured) =
        demoCaptured\<lparr>processorNode := None, sourceNode := None, audioContext := None,
             mediaStream := None, audioBuffer := [], isRecording := False,
             isPaused := False\<rparr>"
      "cleanup (snd (cleanup demoCaptured)) = (Inr [], snd (cleanup demoCaptured))"
    by blast+
  with a show ?thesis by simp
qed

end
